theory Spec2Isabelle
  imports Main "HOL-Library.Word" "HOL-Library.AList"
begin

unbundle bit_operations_syntax

chapter \<open>The PIN-protected vault: cipher engine, PIN policy, store and lockout\<close>

text \<open>
  The development follows the TypeScript sources: the encryption module
  (\<open>EncryptionManager\<close>, \<open>PinValidator\<close>), the IndexedDB storage module
  (\<open>VaultStorage\<close>), the file manager's delete and download handlers and the
  \<open>SecretVault\<close> component with its attempt counter and lockout.

  Conventions. A \<open>Uint8Array\<close> or \<open>ArrayBuffer\<close> is a list of 8-bit words. A
  \<open>Date\<close> is its millisecond time stamp, an \<open>int\<close>; \<open>Date | null\<close> is an
  \<open>int option\<close>. JavaScript numbers that hold counters are \<open>int\<close>. A thrown
  exception is a value of type \<open>exn\<close>, a function that may throw returns
  \<open>exn + 'a\<close>. Calls of \<open>crypto.getRandomValues\<close>, \<open>Date.now\<close> and
  \<open>confirm\<close> are arguments of the function that makes them. \<open>await\<close> is
  sequencing: the component handles one event at a time.
\<close>

section \<open>Data\<close>

type_synonym byte = "8 word"
type_synonym bytes = "byte list"

datatype exn =
  DOMException string   \<comment> \<open>a platform exception, by its name\<close>
| Error string          \<comment> \<open>\<open>new Error(message)\<close>\<close>

section \<open>PIN policy (\<open>PinValidator\<close>)\<close>

subsection \<open>The regular expressions\<close>

text \<open>
  \<open>/^[0-9]+$/\<close>: one or more characters, each a digit. Without the \<open>m\<close> flag
  \<open>^\<close> and \<open>$\<close> match only at the two ends of the string.
\<close>

definition digits :: string where
  "digits = ''0123456789''"

definition onlyNumbers :: "string \<Rightarrow> bool" where
  "onlyNumbers pin = (pin \<noteq> [] \<and> list_all (\<lambda>c. c \<in> set digits) pin)"

text \<open>
  \<open>/^(.)\1+$/\<close>: a first character that \<open>.\<close> accepts (anything but a line
  terminator), then one or more copies of it up to the end of the string.
\<close>

definition lineTerminator :: "char \<Rightarrow> bool" where
  "lineTerminator c = (c = CHR 0x0A \<or> c = CHR 0x0D)"

fun allSame :: "string \<Rightarrow> bool" where
  "allSame [] = False"
| "allSame (c # rest) = (\<not> lineTerminator c \<and> rest \<noteq> [] \<and> list_all (\<lambda>d. d = c) rest)"

text \<open>\<open>/^0123/\<close> and its siblings: the string starts with the four characters.\<close>

definition startsWith :: "string \<Rightarrow> string \<Rightarrow> bool" where
  "startsWith s p = (take (length p) s = p)"

definition sequentialPatterns :: "string list" where
  "sequentialPatterns =
     [''0123'', ''1234'', ''2345'', ''3456'', ''4567'', ''5678'', ''6789'',
      ''9876'', ''8765'', ''7654'', ''6543'', ''5432'', ''4321'', ''3210'']"

subsection \<open>\<open>isWeakPin\<close>, \<open>validatePin\<close>\<close>

text \<open>\<open>weakPatterns.some(pattern => pattern.test(pin))\<close>\<close>

definition isWeakPin :: "string \<Rightarrow> bool" where
  "isWeakPin pin = (allSame pin \<or> list_ex (startsWith pin) sequentialPatterns)"

record Validation =
  isValid :: bool
  errors :: "string list"

definition validatePin :: "string \<Rightarrow> Validation" where
  "validatePin pin =
     (let e1 = (if pin = [] \<or> length pin < 4
                then [''PIN must be at least 4 characters long''] else []);
          e2 = (if length pin > 20
                then [''PIN must be no more than 20 characters long''] else []);
          e3 = (if \<not> onlyNumbers pin
                then [''PIN must contain only numbers''] else []);
          e4 = (if isWeakPin pin
                then [''PIN is too weak - avoid simple patterns like 1234 or 0000''] else []);
          errs = e1 @ e2 @ e3 @ e4
      in \<lparr>isValid = (length errs = 0), errors = errs\<rparr>)"

subsection \<open>\<open>generateSecurePin\<close>\<close>

text \<open>
  One digit is \<open>digits[crypto.getRandomValues(new Uint8Array(1))[0] % digits.length]\<close>.
  The random bytes the function draws are its argument, in the order of the draws;
  what it did not use is returned with the PIN. A weak PIN is thrown away and the
  function calls itself. The result is \<open>None\<close> when the supply ends before a PIN
  that is not weak has been drawn.
\<close>

definition randomIndex :: "byte \<Rightarrow> nat" where
  "randomIndex b = unat b mod length digits"

definition drawDigit :: "byte \<Rightarrow> char" where
  "drawDigit b = digits ! randomIndex b"

function generateSecurePin :: "bytes \<Rightarrow> (string \<times> bytes) option" where
  "generateSecurePin rs =
     (if length rs < 6 then None
      else let pin = map drawDigit (take 6 rs) in
        if isWeakPin pin then generateSecurePin (drop 6 rs)
        else Some (pin, drop 6 rs))"
  by pat_completeness auto
termination
  by (relation "measure length") auto

text \<open>All values of a random byte, each as likely as any other.\<close>

definition byteValues :: "byte list" where
  "byteValues = map of_nat [0..<256]"

subsection \<open>The policy as the specification words it\<close>

text \<open>
  Three rules: the length is between 4 and 20; the PIN is made of digits only (a
  string of one or more digits); the PIN matches no weak pattern. A weak pattern is
  a PIN that is one character written again and again (at least twice, a line break
  not being a character of a PIN), or one that starts with a run of four consecutive
  digits, ascending from \<open>0123\<close> to \<open>6789\<close> or descending from \<open>9876\<close> to
  \<open>3210\<close>.
\<close>

datatype rule = LengthRule | DigitsRule | WeakRule

definition ascendingRun :: "nat \<Rightarrow> string" where
  "ascendingRun d = map (\<lambda>k. digits ! (d + k)) [0..<4]"

definition descendingRun :: "nat \<Rightarrow> string" where
  "descendingRun d = map (\<lambda>k. digits ! (d - k)) [0..<4]"

definition identicalCharacters :: "string \<Rightarrow> bool" where
  "identicalCharacters pin =
     (2 \<le> length pin \<and> \<not> lineTerminator (hd pin) \<and> (\<forall>i < length pin. pin ! i = hd pin))"

definition weakPattern :: "string \<Rightarrow> bool" where
  "weakPattern pin =
     (identicalCharacters pin
      \<or> (\<exists>d \<in> {0..6}. take 4 pin = ascendingRun d)
      \<or> (\<exists>d \<in> {3..9}. take 4 pin = descendingRun d))"

fun violated :: "string \<Rightarrow> rule \<Rightarrow> bool" where
  "violated pin LengthRule = (length pin < 4 \<or> 20 < length pin)"
| "violated pin DigitsRule = (pin = [] \<or> (\<exists>c \<in> set pin. c \<notin> set digits))"
| "violated pin WeakRule = weakPattern pin"

fun ruleMessage :: "string \<Rightarrow> rule \<Rightarrow> string" where
  "ruleMessage pin LengthRule =
     (if length pin < 4 then ''PIN must be at least 4 characters long''
      else ''PIN must be no more than 20 characters long'')"
| "ruleMessage pin DigitsRule = ''PIN must contain only numbers''"
| "ruleMessage pin WeakRule = ''PIN is too weak - avoid simple patterns like 1234 or 0000''"

section \<open>Cipher engine (\<open>EncryptionManager\<close>)\<close>

subsection \<open>The platform\<close>

text \<open>
  The browser's primitives are not code of the repository; the functions below take
  them as the record \<open>P\<close>. \<open>aesGcmEncrypt P key iv data\<close> is the ciphertext with
  its tag, \<open>aesGcmDecrypt P key iv data\<close> is \<open>None\<close> when the tag does not verify;
  \<open>btoa\<close> and \<open>atob\<close> are the Base64 functions (\<open>atob\<close> is \<open>None\<close> where it
  throws); \<open>sha256\<close> is the hash. PBKDF2 with SHA-256 (RFC 8018) uses the password
  only as the key of HMAC, and HMAC (RFC 2104) first brings its key to the block of
  64 bytes: a longer key is replaced by its hash, and zero bytes are appended up to
  64. \<open>hmacBlockKey\<close> is that step; \<open>pbkdf2Block P block salt iterations\<close> is
  the rest of PBKDF2 with a 256-bit result, a parameter.
\<close>

record Platform =
  sha256 :: "bytes \<Rightarrow> bytes"
  pbkdf2Block :: "bytes \<Rightarrow> bytes \<Rightarrow> nat \<Rightarrow> bytes"
  aesGcmEncrypt :: "bytes \<Rightarrow> bytes \<Rightarrow> bytes \<Rightarrow> bytes"
  aesGcmDecrypt :: "bytes \<Rightarrow> bytes \<Rightarrow> bytes \<Rightarrow> bytes option"
  btoa :: "string \<Rightarrow> string"
  atob :: "string \<Rightarrow> string option"

definition hmacBlockKey :: "Platform \<Rightarrow> bytes \<Rightarrow> bytes" where
  "hmacBlockKey P password =
     (let k = (if 64 < length password then sha256 P password else password)
      in k @ replicate (64 - length k) 0)"

definition pbkdf2 :: "Platform \<Rightarrow> bytes \<Rightarrow> bytes \<Rightarrow> nat \<Rightarrow> bytes" where
  "pbkdf2 P password keySalt iterations =
     pbkdf2Block P (hmacBlockKey P password) keySalt iterations"

text \<open>
  A \<open>CryptoKey\<close> holds the key bits and the \<open>extractable\<close> flag it was made with.
  \<open>crypto.subtle.exportKey\<close> rejects with \<open>InvalidAccessError\<close> when the flag is
  false (Web Cryptography API, the exportKey method); \<open>crypto.subtle.decrypt\<close>
  rejects with \<open>OperationError\<close> when the tag does not verify.
\<close>

record CryptoKey =
  keyData :: bytes
  extractable :: bool

definition deriveKey :: "Platform \<Rightarrow> bytes \<Rightarrow> bytes \<Rightarrow> nat \<Rightarrow> bool \<Rightarrow> CryptoKey" where
  "deriveKey P keyMaterial keySalt iterations ext =
     \<lparr>keyData = pbkdf2 P keyMaterial keySalt iterations, extractable = ext\<rparr>"

definition exportKey :: "CryptoKey \<Rightarrow> exn + bytes" where
  "exportKey key =
     (if extractable key then Inr (keyData key) else Inl (DOMException ''InvalidAccessError''))"

definition subtleEncrypt :: "Platform \<Rightarrow> bytes \<Rightarrow> CryptoKey \<Rightarrow> bytes \<Rightarrow> bytes" where
  "subtleEncrypt P iv key data = aesGcmEncrypt P (keyData key) iv data"

definition subtleDecrypt :: "Platform \<Rightarrow> bytes \<Rightarrow> CryptoKey \<Rightarrow> bytes \<Rightarrow> exn + bytes" where
  "subtleDecrypt P iv key data =
     (case aesGcmDecrypt P (keyData key) iv data of
        None \<Rightarrow> Inl (DOMException ''OperationError'')
      | Some plain \<Rightarrow> Inr plain)"

text \<open>\<open>TextEncoder.encode\<close>: UTF-8, here of the characters up to 255.\<close>

definition encodeChar :: "char \<Rightarrow> bytes" where
  "encodeChar c =
     (let n = (of_char c :: nat)
      in if n < 128 then [of_nat n] else [of_nat (192 + n div 64), of_nat (128 + n mod 64)])"

definition textEncode :: "string \<Rightarrow> bytes" where
  "textEncode s = concat (map encodeChar s)"

subsection \<open>Base64 helpers\<close>

definition arrayBufferToBase64 :: "Platform \<Rightarrow> bytes \<Rightarrow> string" where
  "arrayBufferToBase64 P buffer = btoa P (map (\<lambda>b. char_of (unat b)) buffer)"

definition base64ToArrayBuffer :: "Platform \<Rightarrow> string \<Rightarrow> exn + bytes" where
  "base64ToArrayBuffer P base64 =
     (case atob P base64 of
        None \<Rightarrow> Inl (DOMException ''InvalidCharacterError'')
      | Some binaryString \<Rightarrow> Inr (map (\<lambda>c. of_nat (of_char c)) binaryString))"

subsection \<open>Keys, encryption, decryption\<close>

text \<open>
  \<open>generateKeyFromPin(pin, salt?)\<close>. \<open>fresh\<close> stands for the sixteen bytes of
  \<open>crypto.getRandomValues\<close>, drawn only when no salt is passed (\<open>salt || ...\<close>); a
  caller that passes a salt gives \<open>[]\<close> for it. The key is derived with 100000
  iterations and with \<open>extractable\<close> false.
\<close>

definition generateKeyFromPin ::
  "Platform \<Rightarrow> bytes \<Rightarrow> string \<Rightarrow> bytes option \<Rightarrow> CryptoKey \<times> bytes" where
  "generateKeyFromPin P fresh pin saltArg =
     (let pinData = textEncode pin;
          keySalt = (case saltArg of Some s \<Rightarrow> s | None \<Rightarrow> fresh);
          key = deriveKey P pinData keySalt 100000 False
      in (key, keySalt))"

record Encrypted =
  encryptedData :: bytes
  salt :: bytes
  iv :: bytes

text \<open>\<open>encryptFile\<close>: \<open>freshSalt\<close> and \<open>freshIv\<close> are the two random draws.\<close>

definition encryptFile :: "Platform \<Rightarrow> bytes \<Rightarrow> bytes \<Rightarrow> bytes \<Rightarrow> string \<Rightarrow> Encrypted" where
  "encryptFile P freshSalt freshIv fileData pin =
     (let (key, keySalt) = generateKeyFromPin P freshSalt pin None;
          data = subtleEncrypt P freshIv key fileData
      in \<lparr>encryptedData = data, salt = keySalt, iv = freshIv\<rparr>)"

definition decryptFile :: "Platform \<Rightarrow> bytes \<Rightarrow> string \<Rightarrow> bytes \<Rightarrow> bytes \<Rightarrow> exn + bytes" where
  "decryptFile P data pin saltArg ivArg =
     (let (key, keySalt) = generateKeyFromPin P [] pin (Some saltArg)
      in case subtleDecrypt P ivArg key data of
           Inr decryptedData \<Rightarrow> Inr decryptedData
         | Inl e \<Rightarrow> Inl (Error ''Decryption failed - invalid PIN or corrupted data''))"

subsection \<open>\<open>hashPin\<close>, \<open>verifyPin\<close>\<close>

text \<open>\<open>hashPin\<close>: \<open>freshSalt\<close> is its random draw of sixteen bytes.\<close>

definition hashPin :: "Platform \<Rightarrow> bytes \<Rightarrow> string \<Rightarrow> exn + string" where
  "hashPin P freshSalt pin =
     (let (key, keySalt) = generateKeyFromPin P [] pin (Some freshSalt)
      in case exportKey key of
           Inl e \<Rightarrow> Inl e
         | Inr hashArray \<Rightarrow> Inr (arrayBufferToBase64 P (freshSalt @ hashArray)))"

text \<open>
  The comparison loop: \<open>result |= newKeyArray[i] ^ storedKeyArray[i]\<close> for every
  index, on JavaScript's 32-bit integers.
\<close>

definition constantTimeCompare :: "bytes \<Rightarrow> bytes \<Rightarrow> 32 word" where
  "constantTimeCompare newKeyArray storedKeyArray =
     fold (\<lambda>i result. result OR (ucast (newKeyArray ! i) XOR ucast (storedKeyArray ! i)))
          [0..<length newKeyArray] 0"

text \<open>\<open>verifyPin\<close>: whatever is thrown inside its \<open>try\<close> makes it return false.\<close>

definition verifyPin :: "Platform \<Rightarrow> string \<Rightarrow> string \<Rightarrow> bool" where
  "verifyPin P pin storedHash =
     (case base64ToArrayBuffer P storedHash of
        Inl e \<Rightarrow> False
      | Inr combined \<Rightarrow>
          (let saltPart = take 16 combined;
               storedKeyArray = drop 16 combined;
               (key, keySalt) = generateKeyFromPin P [] pin (Some saltPart)
           in case exportKey key of
                Inl e \<Rightarrow> False
              | Inr newKeyArray \<Rightarrow>
                  if length newKeyArray \<noteq> length storedKeyArray then False
                  else constantTimeCompare newKeyArray storedKeyArray = 0))"

text \<open>\<open>generateSecureId\<close>: sixteen random bytes, each as two lower-case hex digits.\<close>

definition hexByte :: "byte \<Rightarrow> string" where
  "hexByte b = [''0123456789abcdef'' ! (unat b div 16), ''0123456789abcdef'' ! (unat b mod 16)]"

definition generateSecureId :: "bytes \<Rightarrow> string" where
  "generateSecureId random = concat (map hexByte random)"

section \<open>Vault store (\<open>VaultStorage\<close>)\<close>

subsection \<open>Records and object stores\<close>

text \<open>
  The fields \<open>id\<close>, \<open>size\<close> and \<open>type\<close> of the source are \<open>fid\<close> and \<open>sid\<close>,
  \<open>fileSize\<close> and \<open>mimeType\<close> here; the stored ciphertext of a file is
  \<open>fileData\<close>. The value kept under \<open>file_<id>\<close> is the pair of Base64 strings of
  the salt and the IV, or \<open>null\<close>.
\<close>

record VaultFile =
  fid :: string
  name :: string
  fileSize :: nat
  mimeType :: string
  uploadDate :: int
  fileData :: bytes
  preview :: "string option"
  category :: "string option"

record PinConfig =
  hash :: string
  attempts :: int
  lockoutUntil :: "int option"
  isFirstTime :: bool

record VaultSession =
  sid :: string
  startTime :: int
  lastActivity :: int
  isActive :: bool

record FileMetadata =
  metaSalt :: string
  metaIv :: string

text \<open>
  An IndexedDB object store is a list of keys with their records, one entry for a
  key. \<open>put\<close> creates or replaces the entry of the key, \<open>delete\<close> removes it,
  \<open>get\<close> reads it, \<open>getAll\<close> lists the records (here in the order in which the
  keys were first put; IndexedDB lists them by key, and nothing below depends on the
  order). Requests on the open database
  are taken to succeed: the \<open>onerror\<close> paths of the source hand on the browser's
  failures and are not part of the model.
\<close>

type_synonym 'a objectStore = "(string \<times> 'a) list"

definition storeGet :: "'a objectStore \<Rightarrow> string \<Rightarrow> 'a option" where
  "storeGet st k = map_of st k"

definition storePut :: "string \<Rightarrow> 'a \<Rightarrow> 'a objectStore \<Rightarrow> 'a objectStore" where
  "storePut k v st = AList.update k v st"

definition storeDelete :: "string \<Rightarrow> 'a objectStore \<Rightarrow> 'a objectStore" where
  "storeDelete k st = AList.delete k st"

definition storeGetAll :: "'a objectStore \<Rightarrow> 'a list" where
  "storeGetAll st = map snd st"

record DB =
  filesStore :: "VaultFile objectStore"
  pinConfigStore :: "PinConfig objectStore"
  sessionsStore :: "VaultSession objectStore"
  metadataStore :: "FileMetadata option objectStore"

subsection \<open>Operations\<close>

definition storeFile :: "DB \<Rightarrow> VaultFile \<Rightarrow> DB" where
  "storeFile db file = db\<lparr>filesStore := storePut (fid file) file (filesStore db)\<rparr>"

definition getFile :: "DB \<Rightarrow> string \<Rightarrow> VaultFile option" where
  "getFile db fileId = storeGet (filesStore db) fileId"

definition getAllFiles :: "DB \<Rightarrow> VaultFile list" where
  "getAllFiles db = storeGetAll (filesStore db)"

definition deleteFile :: "DB \<Rightarrow> string \<Rightarrow> DB" where
  "deleteFile db fileId = db\<lparr>filesStore := storeDelete fileId (filesStore db)\<rparr>"

text \<open>The PIN configuration is the one record under the key \<open>main\<close>.\<close>

definition storePinConfig :: "DB \<Rightarrow> PinConfig \<Rightarrow> DB" where
  "storePinConfig db config = db\<lparr>pinConfigStore := storePut ''main'' config (pinConfigStore db)\<rparr>"

definition getPinConfig :: "DB \<Rightarrow> PinConfig option" where
  "getPinConfig db = storeGet (pinConfigStore db) ''main''"

text \<open>\<open>createSession\<close>: \<open>random\<close> feeds \<open>generateSecureId\<close>, \<open>now\<close> is the clock.\<close>

definition createSession :: "bytes \<Rightarrow> int \<Rightarrow> DB \<Rightarrow> VaultSession \<times> DB" where
  "createSession random now db =
     (let session = \<lparr>sid = generateSecureId random, startTime = now,
                     lastActivity = now, isActive = True\<rparr>
      in (session, db\<lparr>sessionsStore := storePut (sid session) session (sessionsStore db)\<rparr>))"

definition updateSessionActivity :: "int \<Rightarrow> DB \<Rightarrow> string \<Rightarrow> exn + DB" where
  "updateSessionActivity now db sessionId =
     (case storeGet (sessionsStore db) sessionId of
        Some session \<Rightarrow>
          (let session' = session\<lparr>lastActivity := now\<rparr>
           in Inr (db\<lparr>sessionsStore := storePut (sid session') session' (sessionsStore db)\<rparr>))
      | None \<Rightarrow> Inl (Error ''Session not found''))"

definition endSession :: "DB \<Rightarrow> string \<Rightarrow> exn + DB" where
  "endSession db sessionId =
     (case storeGet (sessionsStore db) sessionId of
        Some session \<Rightarrow>
          (let session' = session\<lparr>isActive := False\<rparr>
           in Inr (db\<lparr>sessionsStore := storePut (sid session') session' (sessionsStore db)\<rparr>))
      | None \<Rightarrow> Inr db)"

text \<open>\<open>setMetadata\<close> puts the record \<open>{key, value}\<close>; \<open>getMetadata\<close> is
  \<open>result ? result.value : null\<close>.\<close>

definition setMetadata :: "DB \<Rightarrow> string \<Rightarrow> FileMetadata option \<Rightarrow> DB" where
  "setMetadata db key v = db\<lparr>metadataStore := storePut key v (metadataStore db)\<rparr>"

definition getMetadata :: "DB \<Rightarrow> string \<Rightarrow> FileMetadata option" where
  "getMetadata db key =
     (case storeGet (metadataStore db) key of None \<Rightarrow> None | Some v \<Rightarrow> v)"

section \<open>File manager: delete and download\<close>

text \<open>
  \<open>handleFileUpload\<close>, for one file of the list. \<open>InputFile\<close> is what the browser
  hands over: name, size, MIME type, content, and the data URL a \<open>FileReader\<close>
  gives for it. \<open>randomId\<close>, \<open>freshSalt\<close> and \<open>freshIv\<close> are the random draws of
  \<open>generateSecureId\<close> and \<open>encryptFile\<close>. The metadata is stored before the
  file. The progress display is left out.
\<close>

record InputFile =
  inName :: string
  inSize :: nat
  inType :: string
  inData :: bytes
  inPreview :: string

text \<open>\<open>String.prototype.includes\<close>\<close>

definition includesStr :: "string \<Rightarrow> string \<Rightarrow> bool" where
  "includesStr s sub = list_ex (\<lambda>i. take (length sub) (drop i s) = sub) [0..<Suc (length s)]"

definition getCategoryFromType :: "string \<Rightarrow> string" where
  "getCategoryFromType t =
     (if startsWith t ''image/'' then ''images''
      else if startsWith t ''video/'' then ''videos''
      else if startsWith t ''audio/'' then ''audio''
      else if includesStr t ''pdf'' \<or> includesStr t ''doc'' \<or> startsWith t ''text/'' then ''documents''
      else ''other'')"

definition handleFileUpload ::
  "Platform \<Rightarrow> bytes \<Rightarrow> bytes \<Rightarrow> bytes \<Rightarrow> int \<Rightarrow> string \<Rightarrow> InputFile \<Rightarrow> DB \<Rightarrow> DB" where
  "handleFileUpload P randomId freshSalt freshIv uploadTime pin file db =
     (let fileId = generateSecureId randomId;
          enc = encryptFile P freshSalt freshIv (inData file) pin;
          vaultFile = \<lparr>fid = fileId, name = inName file, fileSize = inSize file,
                       mimeType = inType file, uploadDate = uploadTime,
                       fileData = encryptedData enc,
                       preview = (if startsWith (inType file) ''image/''
                                  then Some (inPreview file) else None),
                       category = Some (getCategoryFromType (inType file))\<rparr>;
          metadata = \<lparr>metaSalt = arrayBufferToBase64 P (salt enc),
                      metaIv = arrayBufferToBase64 P (iv enc)\<rparr>;
          db1 = setMetadata db (''file_'' @ fileId) (Some metadata)
      in storeFile db1 vaultFile)"

text \<open>
  \<open>handleDelete\<close>: \<open>confirmed\<close> is the answer to \<open>confirm\<close>. The file record
  is deleted, then the metadata record of the file is put again with the value
  \<open>null\<close>.
\<close>

definition handleDelete :: "bool \<Rightarrow> VaultFile \<Rightarrow> DB \<Rightarrow> DB" where
  "handleDelete confirmed file db =
     (if confirmed
      then setMetadata (deleteFile db (fid file)) (''file_'' @ fid file) None
      else db)"

text \<open>
  \<open>handleDownload\<close> catches what is thrown in its body, logs it and shows one fixed
  message. The result is \<open>Inl\<close> of the caught exception with the message shown, or
  \<open>Inr\<close> of the decrypted bytes that are offered for download.
\<close>

definition handleDownload :: "Platform \<Rightarrow> string \<Rightarrow> VaultFile \<Rightarrow> DB \<Rightarrow> (exn \<times> string) + bytes" where
  "handleDownload P currentPinArg file db =
     (let shown = ''Failed to download file. Please check your PIN.''
      in case getMetadata db (''file_'' @ fid file) of
           None \<Rightarrow> Inl (Error ''File metadata not found'', shown)
         | Some metadata \<Rightarrow>
             (case base64ToArrayBuffer P (metaSalt metadata) of
                Inl e \<Rightarrow> Inl (e, shown)
              | Inr saltBytes \<Rightarrow>
                  (case base64ToArrayBuffer P (metaIv metadata) of
                     Inl e \<Rightarrow> Inl (e, shown)
                   | Inr ivBytes \<Rightarrow>
                       (case decryptFile P (fileData file) currentPinArg saltBytes ivBytes of
                          Inl e \<Rightarrow> Inl (e, shown)
                        | Inr decryptedData \<Rightarrow> Inr decryptedData))))"

section \<open>Access control (\<open>SecretVault\<close>)\<close>

subsection \<open>Component state\<close>

text \<open>The \<open>useState\<close> cells of the component; its cell \<open>attempts\<close> is
  \<open>attemptsShown\<close> here.\<close>

record VaultState =
  pinConfig :: "PinConfig option"
  isUnlocked :: bool
  currentPin :: string
  isLoading :: bool
  error :: string
  attemptsShown :: int
  isLockedOut :: bool
  lockoutTime :: int
  files :: "VaultFile list"
  currentSession :: "VaultSession option"

definition initialState :: VaultState where
  "initialState =
     \<lparr>pinConfig = None, isUnlocked = False, currentPin = [], isLoading = True,
      error = [], attemptsShown = 0, isLockedOut = False, lockoutTime = 0,
      files = [], currentSession = None\<rparr>"

text \<open>Decimal notation of a number inside a template string.\<close>

function showNat :: "nat \<Rightarrow> string" where
  "showNat n = (if n < 10 then [digits ! n] else showNat (n div 10) @ [digits ! (n mod 10)])"
  by pat_completeness auto
termination
  by (relation "measure id") auto

definition showInt :: "int \<Rightarrow> string" where
  "showInt i = (if i < 0 then CHR ''-'' # showNat (nat (- i)) else showNat (nat i))"

subsection \<open>Handlers\<close>

text \<open>
  \<open>initializeVault\<close> reads the stored configuration; with a \<open>lockoutUntil\<close> in the
  future it raises \<open>isLockedOut\<close> and sets the countdown to
  \<open>Math.ceil((lockoutUntil - now) / 1000)\<close> seconds.
\<close>

definition initializeVault :: "int \<Rightarrow> VaultState \<times> DB \<Rightarrow> VaultState \<times> DB" where
  "initializeVault now w =
     (let (u, db) = w;
          config = getPinConfig db;
          u1 = u\<lparr>pinConfig := config\<rparr>;
          u2 = (case config of
                  None \<Rightarrow> u1
                | Some c \<Rightarrow>
                    (let u' = (case lockoutUntil c of
                                 None \<Rightarrow> u1
                               | Some until \<Rightarrow>
                                   if now < until
                                   then u1\<lparr>isLockedOut := True,
                                           lockoutTime := - ((now - until) div 1000)\<rparr>
                                   else u1)
                     in u'\<lparr>attemptsShown := (if attempts c = 0 then 0 else attempts c)\<rparr>))
      in (u2\<lparr>isLoading := False\<rparr>, db))"

text \<open>
  \<open>handlePinSetup\<close> and \<open>handlePinSubmit\<close> call the encryption manager's
  \<open>hashPin\<close> and \<open>verifyPin\<close>; these are the arguments \<open>hashFn\<close> and \<open>verify\<close>,
  so that what is shown holds for whatever the two compute.
\<close>

definition handlePinSetup ::
  "(string \<Rightarrow> exn + string) \<Rightarrow> bytes \<Rightarrow> int \<Rightarrow> string \<Rightarrow> VaultState \<times> DB \<Rightarrow> VaultState \<times> DB" where
  "handlePinSetup hashFn random now newPin w =
     (let (u, db) = w
      in case hashFn newPin of
           Inl e \<Rightarrow> (u\<lparr>error := ''Failed to setup PIN''\<rparr>, db)
         | Inr hashedPin \<Rightarrow>
             (let newConfig = \<lparr>hash = hashedPin, attempts = 0, lockoutUntil = None,
                               isFirstTime = False\<rparr>;
                  db1 = storePinConfig db newConfig;
                  u1 = u\<lparr>pinConfig := Some newConfig, currentPin := newPin\<rparr>;
                  (session, db2) = createSession random now db1;
                  u2 = u1\<lparr>currentSession := Some session, isUnlocked := True\<rparr>
              in (u2\<lparr>files := getAllFiles db2\<rparr>, db2)))"

definition handlePinSubmit ::
  "(string \<Rightarrow> string \<Rightarrow> bool) \<Rightarrow> bytes \<Rightarrow> int \<Rightarrow> VaultState \<times> DB \<Rightarrow> VaultState \<times> DB" where
  "handlePinSubmit verify random now w =
     (let (u, db) = w
      in case pinConfig u of
           None \<Rightarrow> (u, db)
         | Some cfg \<Rightarrow>
             if currentPin u = [] then (u, db)
             else
               (let u0 = u\<lparr>error := []\<rparr>
                in if verify (currentPin u) (hash cfg)
                   then
                     (let updatedConfig = cfg\<lparr>attempts := 0, lockoutUntil := None\<rparr>;
                          db1 = storePinConfig db updatedConfig;
                          u1 = u0\<lparr>pinConfig := Some updatedConfig\<rparr>;
                          (session, db2) = createSession random now db1;
                          u2 = u1\<lparr>currentSession := Some session, isUnlocked := True\<rparr>
                      in (u2\<lparr>files := getAllFiles db2\<rparr>, db2))
                   else
                     (let newAttempts = (if attempts cfg = 0 then 0 else attempts cfg) + 1;
                          until = (if newAttempts \<ge> 5 then Some (now + 15 * 60 * 1000) else None);
                          u1 = (if newAttempts \<ge> 5
                                then u0\<lparr>isLockedOut := True, lockoutTime := 15 * 60\<rparr>
                                else u0);
                          updatedConfig = cfg\<lparr>attempts := newAttempts, lockoutUntil := until\<rparr>;
                          db1 = storePinConfig db updatedConfig
                      in (u1\<lparr>pinConfig := Some updatedConfig,
                             attemptsShown := newAttempts,
                             error := ''Invalid PIN. '' @ showInt (5 - newAttempts)
                                        @ '' attempts remaining.'',
                             currentPin := []\<rparr>, db1))))"

text \<open>The countdown effect: one firing of its one-second interval.\<close>

definition tick :: "VaultState \<Rightarrow> VaultState" where
  "tick u =
     (if isLockedOut u \<and> lockoutTime u > 0
      then (if lockoutTime u \<le> 1 then u\<lparr>isLockedOut := False, lockoutTime := 0\<rparr>
            else u\<lparr>lockoutTime := lockoutTime u - 1\<rparr>)
      else u)"

text \<open>\<open>handleClose\<close> ends the current session; \<open>onClose\<close> then unmounts the
  component, which is the state \<open>None\<close>.\<close>

definition handleClose :: "VaultState \<times> DB \<Rightarrow> VaultState option \<times> DB" where
  "handleClose w =
     (let (u, db) = w
      in case currentSession u of
           None \<Rightarrow> (None, db)
         | Some session \<Rightarrow>
             (case endSession db (sid session) of
                Inl e \<Rightarrow> (Some u, db)
              | Inr db' \<Rightarrow> (None, db')))"

subsection \<open>What the rendered page lets happen\<close>

text \<open>
  The component renders the spinner while loading, the file manager when unlocked,
  the PIN setup when there is no configuration, and otherwise either the lockout
  notice (\<open>isLockedOut\<close>) or the PIN input with its button. The closing buttons are
  on the unlocked page and on the page of an existing configuration.
\<close>

definition pinSetupShown :: "VaultState \<Rightarrow> bool" where
  "pinSetupShown u = (\<not> isLoading u \<and> \<not> isUnlocked u \<and> pinConfig u = None)"

definition pinFormShown :: "VaultState \<Rightarrow> bool" where
  "pinFormShown u = (\<not> isLoading u \<and> \<not> isUnlocked u \<and> pinConfig u \<noteq> None \<and> \<not> isLockedOut u)"

definition closeShown :: "VaultState \<Rightarrow> bool" where
  "closeShown u = (\<not> isLoading u \<and> (isUnlocked u \<or> pinConfig u \<noteq> None))"

definition fileManagerShown :: "VaultState \<Rightarrow> bool" where
  "fileManagerShown u = (\<not> isLoading u \<and> isUnlocked u)"

record Env =
  now :: int
  random :: bytes
  randomSalt :: bytes
  randomIv :: bytes

datatype event =
  Activate            \<comment> \<open>the gesture: the component is mounted and initialised\<close>
| SetupPin string     \<comment> \<open>the setup form hands over a validated, confirmed PIN\<close>
| TypePin string      \<comment> \<open>the PIN input changes\<close>
| SubmitPin           \<comment> \<open>the button, or Enter in the PIN input\<close>
| Tick                \<comment> \<open>the countdown interval fires\<close>
| CloseVault          \<comment> \<open>one of the closing buttons\<close>
| Upload InputFile    \<comment> \<open>a file is dropped or chosen in the file manager\<close>
| Delete bool VaultFile  \<comment> \<open>the delete button of a listed file, and the answer to \<open>confirm\<close>\<close>

type_synonym world = "VaultState option \<times> DB"

fun step ::
  "Platform \<Rightarrow> (string \<Rightarrow> string \<Rightarrow> bool) \<Rightarrow> (string \<Rightarrow> exn + string) \<Rightarrow> Env \<Rightarrow> event
     \<Rightarrow> world \<Rightarrow> world" where
  "step P verify hashFn env Activate (None, db) =
     (let (u, db') = initializeVault (now env) (initialState, db) in (Some u, db'))"
| "step P verify hashFn env e (None, db) = (None, db)"
| "step P verify hashFn env Activate (Some u, db) = (Some u, db)"
| "step P verify hashFn env (SetupPin p) (Some u, db) =
     (if pinSetupShown u \<and> isValid (validatePin p)
      then (let (u', db') = handlePinSetup hashFn (random env) (now env) p (u, db)
            in (Some u', db'))
      else (Some u, db))"
| "step P verify hashFn env (TypePin s) (Some u, db) =
     (if pinFormShown u then (Some (u\<lparr>currentPin := s\<rparr>), db) else (Some u, db))"
| "step P verify hashFn env SubmitPin (Some u, db) =
     (if pinFormShown u
      then (let (u', db') = handlePinSubmit verify (random env) (now env) (u, db)
            in (Some u', db'))
      else (Some u, db))"
| "step P verify hashFn env Tick (Some u, db) = (Some (tick u), db)"
| "step P verify hashFn env CloseVault (Some u, db) =
     (if closeShown u then handleClose (u, db) else (Some u, db))"
| "step P verify hashFn env (Upload file) (Some u, db) =
     (if fileManagerShown u
      then (let db' = handleFileUpload P (random env) (randomSalt env) (randomIv env) (now env)
                        (currentPin u) file db
            in (Some (u\<lparr>files := getAllFiles db'\<rparr>), db'))
      else (Some u, db))"
| "step P verify hashFn env (Delete confirmed file) (Some u, db) =
     (if fileManagerShown u \<and> file \<in> set (files u)
      then (let db' = handleDelete confirmed file db
            in (Some (if confirmed then u\<lparr>files := getAllFiles db'\<rparr> else u), db'))
      else (Some u, db))"

fun run ::
  "Platform \<Rightarrow> (string \<Rightarrow> string \<Rightarrow> bool) \<Rightarrow> (string \<Rightarrow> exn + string) \<Rightarrow> (Env \<times> event) list
     \<Rightarrow> world \<Rightarrow> world" where
  "run P verify hashFn [] w = w"
| "run P verify hashFn ((env, e) # rest) w = run P verify hashFn rest (step P verify hashFn env e w)"

text \<open>The persisted attempt counter and lockout time; no configuration counts as no
  failed attempt and no lockout.\<close>

definition storedAttempts :: "DB \<Rightarrow> int" where
  "storedAttempts db = (case getPinConfig db of None \<Rightarrow> 0 | Some c \<Rightarrow> attempts c)"

definition storedLockoutUntil :: "DB \<Rightarrow> int option" where
  "storedLockoutUntil db = (case getPinConfig db of None \<Rightarrow> None | Some c \<Rightarrow> lockoutUntil c)"


subsection \<open>Events in time\<close>

text \<open>
  The countdown is a one-second interval that the effect starts anew whenever
  \<open>isLockedOut\<close> or \<open>lockoutTime\<close> has changed, so it fires no earlier than a
  second after the last such change. \<open>timedRun\<close> runs a sequence of events and keeps
  the time of the latest event and the time the interval was last started; it is
  \<open>None\<close> for a sequence in which the clock goes back or the interval fires early.
\<close>

record Timing =
  lastEvent :: int
  timerStart :: int

definition countdown :: "world \<Rightarrow> (bool \<times> int) option" where
  "countdown w = map_option (\<lambda>u. (isLockedOut u, lockoutTime u)) (fst w)"

fun admissible :: "Timing \<Rightarrow> Env \<Rightarrow> event \<Rightarrow> bool" where
  "admissible tm env Tick = (lastEvent tm \<le> now env \<and> timerStart tm + 1000 \<le> now env)"
| "admissible tm env e = (lastEvent tm \<le> now env)"

definition advance :: "Timing \<Rightarrow> Env \<Rightarrow> world \<Rightarrow> world \<Rightarrow> Timing" where
  "advance tm env w w' =
     \<lparr>lastEvent = now env,
      timerStart = (if countdown w' \<noteq> countdown w then now env else timerStart tm)\<rparr>"

fun timedRun ::
  "Platform \<Rightarrow> (string \<Rightarrow> string \<Rightarrow> bool) \<Rightarrow> (string \<Rightarrow> exn + string) \<Rightarrow> (Env \<times> event) list
     \<Rightarrow> Timing \<times> world \<Rightarrow> (Timing \<times> world) option" where
  "timedRun P verify hashFn [] s = Some s"
| "timedRun P verify hashFn ((env, e) # rest) (tm, w) =
     (if admissible tm env e
      then (let w' = step P verify hashFn env e w
            in timedRun P verify hashFn rest (advance tm env w w', w'))
      else None)"

section \<open>An instance of the platform and example states\<close>

text \<open>
  A small instance of the platform record, for running the definitions on concrete
  inputs: its hash and its key derivation pad or cut their input to 32 bytes, its
  cipher writes key and nonce in front of the data and checks them on the way back,
  its Base64 functions do nothing.
\<close>

definition demoSha256 :: "bytes \<Rightarrow> bytes" where
  "demoSha256 data = take 32 (data @ replicate 32 0)"

definition demoPbkdf2 :: "bytes \<Rightarrow> bytes \<Rightarrow> nat \<Rightarrow> bytes" where
  "demoPbkdf2 block s n = take 32 (block @ s @ replicate 32 0)"

definition demoEncrypt :: "bytes \<Rightarrow> bytes \<Rightarrow> bytes \<Rightarrow> bytes" where
  "demoEncrypt k nonce data = k @ nonce @ data"

definition demoDecrypt :: "bytes \<Rightarrow> bytes \<Rightarrow> bytes \<Rightarrow> bytes option" where
  "demoDecrypt k nonce data =
     (if take (length k + length nonce) data = k @ nonce
      then Some (drop (length k + length nonce) data) else None)"

definition demoPlatform :: Platform where
  "demoPlatform =
     \<lparr>sha256 = demoSha256, pbkdf2Block = demoPbkdf2, aesGcmEncrypt = demoEncrypt,
      aesGcmDecrypt = demoDecrypt, btoa = (\<lambda>s. s), atob = Some\<rparr>"

text \<open>The environment of an event at time \<open>t\<close> that draws no random bytes.\<close>

definition envAt :: "int \<Rightarrow> Env" where
  "envAt t = \<lparr>now = t, random = [], randomSalt = [], randomIv = []\<rparr>"

definition emptyDB :: DB where
  "emptyDB = \<lparr>filesStore = [], pinConfigStore = [], sessionsStore = [], metadataStore = []\<rparr>"

text \<open>A vault in lockout: five failed attempts, locked until time 900000.\<close>

definition lockedConfig :: PinConfig where
  "lockedConfig = \<lparr>hash = ''stored'', attempts = 5, lockoutUntil = Some 900000, isFirstTime = False\<rparr>"

definition lockedDB :: DB where
  "lockedDB = storePinConfig emptyDB lockedConfig"

definition lockedState :: VaultState where
  "lockedState =
     initialState\<lparr>pinConfig := Some lockedConfig, isLoading := False, currentPin := ''4821'',
                  attemptsShown := 5, isLockedOut := True, lockoutTime := 899\<rparr>"


text \<open>A vault with no failed attempt, where the wrong PIN \<open>0000\<close> has been typed.\<close>

definition freshConfig :: PinConfig where
  "freshConfig = \<lparr>hash = ''stored'', attempts = 0, lockoutUntil = None, isFirstTime = False\<rparr>"

definition freshState :: VaultState where
  "freshState =
     initialState\<lparr>pinConfig := Some freshConfig, isLoading := False, currentPin := ''0000''\<rparr>"

text \<open>A stand-in for a verifier that accepts: the typed PIN is the stored string.\<close>

definition sameAsStored :: "string \<Rightarrow> string \<Rightarrow> bool" where
  "sameAsStored pin stored = (pin = stored)"

text \<open>A mounted component is in step with the store when its copy of the
  configuration is the stored one.\<close>

definition synced :: "world \<Rightarrow> bool" where
  "synced w = (case fst w of None \<Rightarrow> True | Some u \<Rightarrow> pinConfig u = getPinConfig (snd w))"

text \<open>The countdown does not end before the stored lockout: while the flag is set, the
  time the interval was started plus the seconds left reaches \<open>lockoutUntil\<close>; when
  it is not set, \<open>lockoutUntil\<close> has passed.\<close>

definition lockoutKept :: "Timing \<times> world \<Rightarrow> bool" where
  "lockoutKept s =
     (case s of (tm, w) \<Rightarrow>
        synced w \<and>
        (case fst w of
           None \<Rightarrow> True
         | Some u \<Rightarrow>
             (case storedLockoutUntil (snd w) of
                None \<Rightarrow> True
              | Some until \<Rightarrow>
                  if isLockedOut u then until \<le> timerStart tm + lockoutTime u * 1000
                  else until \<le> lastEvent tm)))"

chapter \<open>Properties\<close>

section \<open>PIN policy\<close>

lemma allSame_identical: "allSame pin = identicalCharacters pin"
proof (cases pin)
  case Nil
  then show ?thesis by (simp add: identicalCharacters_def)
next
  case (Cons c rest)
  have "list_all (\<lambda>d. d = c) rest = (\<forall>i < Suc (length rest). (c # rest) ! i = c)"
    by (auto simp: list_all_length nth_Cons split: nat.splits)
  moreover have "(rest \<noteq> []) = (2 \<le> Suc (length rest))"
    by (cases rest) auto
  ultimately show ?thesis
    using Cons by (auto simp: identicalCharacters_def)
qed

text \<open>The fourteen literal patterns are the seven ascending and the seven descending
  runs.\<close>

lemma sequentialPatterns_runs:
  "sequentialPatterns = map ascendingRun [0..<7] @ map descendingRun (rev [3..<10])"
  by (simp add: sequentialPatterns_def ascendingRun_def descendingRun_def digits_def
        upt_rec numeral_nat)

lemma startsWith_run:
  "startsWith s (ascendingRun d) = (take 4 s = ascendingRun d)"
  "startsWith s (descendingRun d) = (take 4 s = descendingRun d)"
  by (simp_all add: startsWith_def ascendingRun_def descendingRun_def)

lemma sequential_runs:
  "list_ex (startsWith pin) sequentialPatterns =
     ((\<exists>d \<in> {0..6}. take 4 pin = ascendingRun d) \<or> (\<exists>d \<in> {3..9}. take 4 pin = descendingRun d))"
proof -
  have a: "set [0..<7] = {0..6::nat}" and b: "set (rev [3..<10]) = {3..9::nat}"
    by auto
  have "list_ex (startsWith pin) sequentialPatterns =
     ((\<exists>d \<in> set [0..<7]. startsWith pin (ascendingRun d))
      \<or> (\<exists>d \<in> set (rev [3..<10]). startsWith pin (descendingRun d)))"
    unfolding sequentialPatterns_runs list_ex_iff by auto
  then show ?thesis
    unfolding a b startsWith_run .
qed

lemma isWeakPin_weakPattern: "isWeakPin pin = weakPattern pin"
  by (simp only: isWeakPin_def weakPattern_def allSame_identical sequential_runs)

lemma violated_digits: "violated pin DigitsRule = (\<not> onlyNumbers pin)"
  by (auto simp: onlyNumbers_def list_all_iff)

lemma errors_complete:
  "errors (validatePin pin) =
     map (ruleMessage pin) (filter (violated pin) [LengthRule, DigitsRule, WeakRule])"
proof -
  have "pin = [] \<or> length pin < 4 \<longleftrightarrow> length pin < 4" by auto
  then show ?thesis
    unfolding validatePin_def Let_def
    by (auto simp add: isWeakPin_weakPattern violated_digits simp del: violated.simps(2))
qed

lemma all_rules: "(\<forall>r. P r) = (P LengthRule \<and> P DigitsRule \<and> P WeakRule)"
  by (metis rule.exhaust)

lemma isValid_no_rule_violated: "isValid (validatePin pin) = (\<forall>r. \<not> violated pin r)"
  unfolding all_rules validatePin_def Let_def
  by (auto simp add: isWeakPin_weakPattern violated_digits simp del: violated.simps(2))

lemmas validate_eval =
  validatePin_def Let_def isWeakPin_def sequentialPatterns_def startsWith_def
  onlyNumbers_def digits_def lineTerminator_def

lemma validatePin_examples:
  "validatePin ''1234'' =
     \<lparr>isValid = False, errors = [''PIN is too weak - avoid simple patterns like 1234 or 0000'']\<rparr>"
  "validatePin ''0000'' =
     \<lparr>isValid = False, errors = [''PIN is too weak - avoid simple patterns like 1234 or 0000'']\<rparr>"
  "validatePin ''9876'' =
     \<lparr>isValid = False, errors = [''PIN is too weak - avoid simple patterns like 1234 or 0000'']\<rparr>"
  "validatePin ''1357'' = \<lparr>isValid = True, errors = []\<rparr>"
  by (simp_all add: validate_eval)

text \<open>
  Claim C7. For every candidate PIN, \<open>validatePin\<close> returns the messages of all the
  rules the PIN violates, not only of the first: the length rule (4 to 20), the
  digits-only rule and the weak-pattern rule (one repeated character; a start with one
  of the ascending runs 0123 to 6789 or of the descending runs 9876 to 3210). The PIN
  is valid exactly when no rule is violated. \<open>1234\<close>, \<open>0000\<close> and \<open>9876\<close> are
  invalid with the weak-pattern message, \<open>1357\<close> is valid.
\<close>

theorem validatePin_reports_every_violated_rule:
  "errors (validatePin pin) =
     map (ruleMessage pin) (filter (violated pin) [LengthRule, DigitsRule, WeakRule])
   \<and> isValid (validatePin pin) = (\<forall>r. \<not> violated pin r)
   \<and> validatePin ''1234'' =
       \<lparr>isValid = False, errors = [''PIN is too weak - avoid simple patterns like 1234 or 0000'']\<rparr>
   \<and> validatePin ''0000'' =
       \<lparr>isValid = False, errors = [''PIN is too weak - avoid simple patterns like 1234 or 0000'']\<rparr>
   \<and> validatePin ''9876'' =
       \<lparr>isValid = False, errors = [''PIN is too weak - avoid simple patterns like 1234 or 0000'']\<rparr>
   \<and> validatePin ''1357'' = \<lparr>isValid = True, errors = []\<rparr>"
  using errors_complete isValid_no_rule_violated validatePin_examples by simp

text \<open>The PIN \<open>12a\<close> violates two rules at once, and both are reported.\<close>

theorem validatePin_reports_every_violated_rule_witness:
  "map (ruleMessage ''12a'') (filter (violated ''12a'') [LengthRule, DigitsRule, WeakRule]) =
     [''PIN must be at least 4 characters long'', ''PIN must contain only numbers'']
   \<and> \<not> isValid (validatePin ''12a'')"
proof -
  have "validatePin ''12a'' =
      \<lparr>isValid = False,
       errors = [''PIN must be at least 4 characters long'', ''PIN must contain only numbers'']\<rparr>"
    by (simp add: validate_eval)
  with validatePin_reports_every_violated_rule [of "''12a''"] show ?thesis
    by simp
qed

subsection \<open>The generated PIN\<close>

lemma drawDigit_digit: "drawDigit b \<in> set digits"
  unfolding drawDigit_def randomIndex_def by (rule nth_mem) (simp add: digits_def)

text \<open>What \<open>generateSecurePin\<close> returns is six digits long and not weak.\<close>

lemma generateSecurePin_result:
  "generateSecurePin rs = Some (pin, rest) \<Longrightarrow>
     length pin = 6 \<and> list_all (\<lambda>c. c \<in> set digits) pin \<and> \<not> isWeakPin pin"
proof (induction rs rule: generateSecurePin.induct)
  case (1 rs)
  show ?case
  proof (cases "length rs < 6")
    case True
    with "1.prems" show ?thesis by simp
  next
    case False
    let ?pin = "map drawDigit (take 6 rs)"
    show ?thesis
    proof (cases "isWeakPin ?pin")
      case True
      with False "1.prems" have "generateSecurePin (drop 6 rs) = Some (pin, rest)"
        by (simp add: Let_def)
      with "1.IH"[OF False refl True] show ?thesis .
    next
      case notWeak: False
      with False "1.prems" have "pin = ?pin" by (simp add: Let_def)
      with notWeak False show ?thesis by (simp add: list_all_iff drawDigit_digit)
    qed
  qed
qed

lemma unat_byte: "n < 256 \<Longrightarrow> unat (of_nat n :: byte) = n"
  by (simp add: unat_of_nat)

lemma filter_byteValues:
  "length (filter (\<lambda>b. Q (unat b)) byteValues) = length (filter Q [0..<256])"
proof -
  have "filter (\<lambda>b. Q (unat b)) byteValues = map of_nat (filter Q [0..<256])"
    unfolding byteValues_def filter_map o_def
    by (rule arg_cong[where f="map of_nat"], rule filter_cong) (auto simp: unat_byte)
  then show ?thesis by simp
qed

lemma count_mod10_0: "length (filter (\<lambda>n. n mod 10 = 0) [0..<256]) = (26::nat)"
  by code_simp

lemma count_mod10_9: "length (filter (\<lambda>n. n mod 10 = 9) [0..<256]) = (25::nat)"
  by code_simp

text \<open>
  Claim C8. \<open>generateSecurePin\<close> is to draw every digit uniformly over 0 to 9 from
  the random bytes. It takes a random byte modulo 10: of the 256 values of a byte, 26
  give the digit 0 and 25 give the digit 9, so the digits are not equally likely.
\<close>

theorem generateSecurePin_digit_bias:
  "length (filter (\<lambda>b. randomIndex b = 0) byteValues) = 26
   \<and> length (filter (\<lambda>b. randomIndex b = 9) byteValues) = 25"
  unfolding randomIndex_def
  using filter_byteValues[of "\<lambda>n. n mod length digits = 0"]
    filter_byteValues[of "\<lambda>n. n mod length digits = 9"] count_mod10_0 count_mod10_9
  by (simp add: digits_def)

section \<open>Cipher engine\<close>

text \<open>
  Claim C4. \<open>verifyPin(p, hashPin(p))\<close> is to be true for a valid PIN. The key of
  \<open>generateKeyFromPin\<close> is derived with \<open>extractable\<close> false, so \<open>exportKey\<close>
  rejects: \<open>hashPin\<close> throws \<open>InvalidAccessError\<close> for every PIN and salt, and
  \<open>verifyPin\<close> catches the same exception and returns false for every PIN and every
  stored hash.
\<close>

theorem hashPin_throws_verifyPin_false:
  "hashPin P freshSalt pin = Inl (DOMException ''InvalidAccessError'')
   \<and> verifyPin P pin' storedHash = False"
  by (simp add: hashPin_def verifyPin_def generateKeyFromPin_def deriveKey_def exportKey_def
        Let_def split: sum.splits)

text \<open>The comparison loop itself is right: on arrays of one length, the accumulated OR
  of the XORs is 0 exactly when the arrays are equal.\<close>

lemma fold_or_zero:
  "(fold (\<lambda>i r. r OR f i) xs r0 = (0::32 word)) = (r0 = 0 \<and> (\<forall>i \<in> set xs. f i = 0))"
  by (induction xs arbitrary: r0) (auto simp: or_eq_0_iff)

lemma xor_zero_word: "(x XOR y = 0) = (x = y)" for x y :: "'a::len word"
  by (metis bit.xor_self xor.assoc xor.right_neutral)

lemma ucast_byte_inj: "((ucast a :: 32 word) = ucast b) = (a = b)" for a b :: byte
proof
  assume e: "(ucast a :: 32 word) = ucast b"
  have up: "is_up (ucast :: byte \<Rightarrow> 32 word)" by (simp add: is_up)
  have "a = ucast (ucast a :: 32 word)" using ucast_up_ucast_id[OF up] by simp
  also have "\<dots> = ucast (ucast b :: 32 word)" using e by simp
  also have "\<dots> = b" using ucast_up_ucast_id[OF up] by simp
  finally show "a = b" .
qed simp

lemma constantTimeCompare_eq:
  assumes "length a = length b"
  shows "(constantTimeCompare a b = 0) = (a = b)"
proof -
  have "(constantTimeCompare a b = 0)
      = (\<forall>i \<in> set [0..<length a]. (ucast (a ! i) :: 32 word) XOR ucast (b ! i) = 0)"
    unfolding constantTimeCompare_def fold_or_zero by simp
  also have "\<dots> = (\<forall>i < length a. a ! i = b ! i)"
    by (simp only: xor_zero_word ucast_byte_inj set_upt) auto
  also have "\<dots> = (a = b)"
    using assms by (simp add: list_eq_iff_nth_eq)
  finally show ?thesis .
qed

lemma demo_roundtrip: "demoDecrypt k n (demoEncrypt k n b) = Some b"
  by (simp add: demoDecrypt_def demoEncrypt_def)

text \<open>
  Claim C5. For every PIN \<open>pin\<close> and payload \<open>b\<close>, decrypting the result of
  \<open>encryptFile\<close> with the same PIN and the salt and nonce that \<open>encryptFile\<close>
  returned gives \<open>b\<close> back, whatever salt and nonce were drawn. The assumption
  is on the platform's cipher: AES-GCM decrypts what it encrypted under the same key
  and nonce.
\<close>

theorem encrypt_decrypt_roundtrip:
  assumes "\<forall>k n d. aesGcmDecrypt P k n (aesGcmEncrypt P k n d) = Some d"
  shows "decryptFile P (encryptedData (encryptFile P freshSalt freshIv b pin)) pin
           (salt (encryptFile P freshSalt freshIv b pin))
           (iv (encryptFile P freshSalt freshIv b pin)) = Inr b"
  using assms
  by (simp add: decryptFile_def encryptFile_def generateKeyFromPin_def deriveKey_def
        subtleEncrypt_def subtleDecrypt_def Let_def)

theorem encrypt_decrypt_roundtrip_witness:
  "decryptFile demoPlatform
     (encryptedData (encryptFile demoPlatform (replicate 16 1) (replicate 12 2) [10, 20, 30] ''4821''))
     ''4821''
     (salt (encryptFile demoPlatform (replicate 16 1) (replicate 12 2) [10, 20, 30] ''4821''))
     (iv (encryptFile demoPlatform (replicate 16 1) (replicate 12 2) [10, 20, 30] ''4821''))
   = Inr [10, 20, 30]"
proof -
  have "\<forall>k n d. aesGcmDecrypt demoPlatform k n (aesGcmEncrypt demoPlatform k n d) = Some d"
    by (simp add: demoPlatform_def demo_roundtrip)
  then show ?thesis by (rule encrypt_decrypt_roundtrip)
qed















section \<open>Vault store\<close>

lemma storeGet_put: "storeGet (storePut k v st) k' = (if k' = k then Some v else storeGet st k')"
  by (simp add: storeGet_def storePut_def update_conv')

lemma storeGet_delete: "storeGet (storeDelete k st) k' = (if k' = k then None else storeGet st k')"
  by (simp add: storeGet_def storeDelete_def delete_conv')

text \<open>Putting under a key that is there adds no key and removes none.\<close>

lemma storePut_keys_present:
  "storeGet st k = Some v' \<Longrightarrow> map fst (storePut k v st) = map fst st"
  by (auto simp add: storePut_def update_keys storeGet_def dest: map_of_SomeD intro: rev_image_eqI)

text \<open>Unlike \<open>endSession\<close>, \<open>updateSessionActivity\<close> rejects a missing session.\<close>

lemma updateSessionActivity_missing:
  "storeGet (sessionsStore db) sessionId = None \<Longrightarrow>
   updateSessionActivity t db sessionId = Inl (Error ''Session not found'')"
  by (simp add: updateSessionActivity_def)

text \<open>
  Claim C9. After a confirmed \<open>handleDelete\<close> of a file, the file record is gone
  (\<open>getFile\<close> finds nothing under its id), the metadata lookup under
  \<open>file_<id>\<close> yields nothing, and a download of that file fails with
  \<open>File metadata not found\<close>. In particular an upload stores the file under its new
  id together with metadata, and deleting the stored file removes both. (The metadata
  entry is overwritten with \<open>null\<close>; \<open>getMetadata\<close> reads \<open>null\<close> from it as
  it does where there is no entry.)
\<close>

theorem delete_removes_file_and_metadata:
  "getFile (handleDelete True file db) (fid file) = None
   \<and> getMetadata (handleDelete True file db) (''file_'' @ fid file) = None
   \<and> handleDownload P pin file (handleDelete True file db)
       = Inl (Error ''File metadata not found'', ''Failed to download file. Please check your PIN.'')
   \<and> (\<exists>stored. getFile (handleFileUpload P randomId freshSalt freshIv t pin input db)
                   (generateSecureId randomId) = Some stored
         \<and> fid stored = generateSecureId randomId
         \<and> getMetadata (handleFileUpload P randomId freshSalt freshIv t pin input db)
              (''file_'' @ generateSecureId randomId) \<noteq> None
         \<and> getFile (handleDelete True stored
                (handleFileUpload P randomId freshSalt freshIv t pin input db))
              (generateSecureId randomId) = None
         \<and> getMetadata (handleDelete True stored
                (handleFileUpload P randomId freshSalt freshIv t pin input db))
              (''file_'' @ generateSecureId randomId) = None)"
  by (simp add: handleDelete_def handleDownload_def getFile_def getMetadata_def deleteFile_def
        setMetadata_def storeFile_def handleFileUpload_def storeGet_put storeGet_delete Let_def)

text \<open>The entry that stays behind in the metadata store holds \<open>null\<close>.\<close>

lemma handleDelete_metadata_entry:
  "storeGet (metadataStore (handleDelete True file db)) (''file_'' @ fid file) = Some None"
  by (simp add: handleDelete_def deleteFile_def setMetadata_def storeGet_put)

text \<open>
  Claim C10. \<open>endSession\<close> succeeds and changes nothing when no session has the id.
  When the session exists (stored under its own \<open>id\<close>, the key path of the
  store), \<open>endSession\<close> succeeds, the stored session differs from the old one in
  \<open>isActive = false\<close> only, every other session is as before, no key is removed or
  added, and the other three stores are untouched.
\<close>

theorem endSession_deactivates_only:
  "(storeGet (sessionsStore db) sessionId = None \<longrightarrow> endSession db sessionId = Inr db)
   \<and> (\<forall>s. storeGet (sessionsStore db) sessionId = Some s \<and> sid s = sessionId \<longrightarrow>
        (\<exists>db' s'. endSession db sessionId = Inr db'
           \<and> storeGet (sessionsStore db') sessionId = Some s'
           \<and> sid s' = sid s \<and> startTime s' = startTime s \<and> lastActivity s' = lastActivity s
           \<and> isActive s' = False
           \<and> (\<forall>k. k \<noteq> sessionId \<longrightarrow> storeGet (sessionsStore db') k = storeGet (sessionsStore db) k)
           \<and> map fst (sessionsStore db') = map fst (sessionsStore db)
           \<and> filesStore db' = filesStore db \<and> pinConfigStore db' = pinConfigStore db
           \<and> metadataStore db' = metadataStore db))"
proof (intro conjI allI impI)
  assume "storeGet (sessionsStore db) sessionId = None"
  then show "endSession db sessionId = Inr db"
    by (simp add: endSession_def)
next
  fix s
  assume found: "storeGet (sessionsStore db) sessionId = Some s \<and> sid s = sessionId"
  let ?s' = "s\<lparr>isActive := False\<rparr>"
  let ?db' = "db\<lparr>sessionsStore := storePut sessionId ?s' (sessionsStore db)\<rparr>"
  from found have ended: "endSession db sessionId = Inr ?db'"
    by (simp add: endSession_def Let_def)
  from found have keys: "map fst (sessionsStore ?db') = map fst (sessionsStore db)"
    by (simp add: storePut_keys_present)
  show "\<exists>db' s'. endSession db sessionId = Inr db'
           \<and> storeGet (sessionsStore db') sessionId = Some s'
           \<and> sid s' = sid s \<and> startTime s' = startTime s \<and> lastActivity s' = lastActivity s
           \<and> isActive s' = False
           \<and> (\<forall>k. k \<noteq> sessionId \<longrightarrow> storeGet (sessionsStore db') k = storeGet (sessionsStore db) k)
           \<and> map fst (sessionsStore db') = map fst (sessionsStore db)
           \<and> filesStore db' = filesStore db \<and> pinConfigStore db' = pinConfigStore db
           \<and> metadataStore db' = metadataStore db"
    using ended keys
    by (intro exI[of _ ?db'] exI[of _ ?s']) (simp add: storeGet_put)
qed

text \<open>On the empty database, and on the database after one \<open>createSession\<close> whose
  random bytes give the id \<open>abcd\<close>.\<close>

lemma generateSecureId_abcd: "generateSecureId [171, 205] = ''abcd''"
  by (simp add: generateSecureId_def hexByte_def)

theorem endSession_deactivates_only_witness:
  "endSession emptyDB ''abcd'' = Inr emptyDB
   \<and> (\<exists>db' s'. endSession (snd (createSession [171, 205] 10 emptyDB)) ''abcd'' = Inr db'
         \<and> storeGet (sessionsStore db') ''abcd'' = Some s'
         \<and> sid s' = ''abcd'' \<and> startTime s' = 10 \<and> lastActivity s' = 10 \<and> isActive s' = False
         \<and> map fst (sessionsStore db') = [''abcd''])"
proof -
  let ?db = "snd (createSession [171, 205] 10 emptyDB)"
  let ?s = "\<lparr>sid = ''abcd'', startTime = 10, lastActivity = 10, isActive = True\<rparr>"
  have a: "storeGet (sessionsStore emptyDB) ''abcd'' = None"
    by (simp add: emptyDB_def storeGet_def)
  have b: "storeGet (sessionsStore ?db) ''abcd'' = Some ?s \<and> sid ?s = ''abcd''"
    by (simp add: createSession_def generateSecureId_abcd emptyDB_def storeGet_def
          storePut_def Let_def)
  have c: "map fst (sessionsStore ?db) = [''abcd'']"
    by (simp add: createSession_def generateSecureId_abcd emptyDB_def storePut_def Let_def)
  from endSession_deactivates_only[of emptyDB "''abcd''"] a
  have "endSession emptyDB ''abcd'' = Inr emptyDB"
    by blast
  moreover from endSession_deactivates_only[of ?db "''abcd''"] b
  have "\<exists>db' s'. endSession ?db ''abcd'' = Inr db'
         \<and> storeGet (sessionsStore db') ''abcd'' = Some s'
         \<and> sid s' = sid ?s \<and> startTime s' = startTime ?s \<and> lastActivity s' = lastActivity ?s
         \<and> isActive s' = False
         \<and> map fst (sessionsStore db') = map fst (sessionsStore ?db)"
    by blast
  ultimately show ?thesis using c by simp
qed

section \<open>Access control\<close>

subsection \<open>The handlers\<close>

lemma envAt_simps [simp]:
  "now (envAt t) = t" "random (envAt t) = []" "randomSalt (envAt t) = []" "randomIv (envAt t) = []"
  by (simp_all add: envAt_def)

lemma getPinConfig_store [simp]: "getPinConfig (storePinConfig db c) = Some c"
  by (simp add: getPinConfig_def storePinConfig_def storeGet_put)

lemma getPinConfig_createSession [simp]:
  "getPinConfig (snd (createSession r t db)) = getPinConfig db"
  by (simp add: getPinConfig_def createSession_def Let_def)

lemma sessionsStore_storePinConfig: "sessionsStore (storePinConfig db c) = sessionsStore db"
  by (simp add: storePinConfig_def)

text \<open>The failure branch of \<open>handlePinSubmit\<close>, in one equation.\<close>

lemma handlePinSubmit_failed:
  assumes "pinConfig u = Some cfg" "currentPin u \<noteq> []" "\<not> verify (currentPin u) (hash cfg)"
  shows "handlePinSubmit verify r t (u, db) =
     ((if 5 \<le> attempts cfg + 1 then u\<lparr>error := [], isLockedOut := True, lockoutTime := 900\<rparr>
       else u\<lparr>error := []\<rparr>)
        \<lparr>pinConfig := Some (cfg\<lparr>attempts := attempts cfg + 1,
                  lockoutUntil := (if 5 \<le> attempts cfg + 1 then Some (t + 900000) else None)\<rparr>),
         attemptsShown := attempts cfg + 1,
         error := ''Invalid PIN. '' @ showInt (5 - (attempts cfg + 1)) @ '' attempts remaining.'',
         currentPin := []\<rparr>,
      storePinConfig db (cfg\<lparr>attempts := attempts cfg + 1,
                  lockoutUntil := (if 5 \<le> attempts cfg + 1 then Some (t + 900000) else None)\<rparr>))"
  using assms by (simp add: handlePinSubmit_def Let_def)

lemma handlePinSubmit_verified:
  assumes "pinConfig u = Some cfg" "currentPin u \<noteq> []" "verify (currentPin u) (hash cfg)"
  shows "getPinConfig (snd (handlePinSubmit verify r t (u, db)))
           = Some (cfg\<lparr>attempts := 0, lockoutUntil := None\<rparr>)
    \<and> pinConfig (fst (handlePinSubmit verify r t (u, db)))
           = Some (cfg\<lparr>attempts := 0, lockoutUntil := None\<rparr>)"
  using assms by (simp add: handlePinSubmit_def Let_def split: prod.splits)
    (metis getPinConfig_createSession getPinConfig_store snd_conv)

lemma handlePinSubmit_noop:
  "pinConfig u = None \<or> currentPin u = [] \<Longrightarrow> handlePinSubmit verify r t (u, db) = (u, db)"
  by (auto simp add: handlePinSubmit_def Let_def split: option.splits)

lemma handlePinSetup_cases:
  "(\<exists>e. hashFn p = Inl e
        \<and> handlePinSetup hashFn r t p (u, db) = (u\<lparr>error := ''Failed to setup PIN''\<rparr>, db))
   \<or> (\<exists>h. hashFn p = Inr h
        \<and> getPinConfig (snd (handlePinSetup hashFn r t p (u, db)))
            = Some \<lparr>hash = h, attempts = 0, lockoutUntil = None, isFirstTime = False\<rparr>
        \<and> pinConfig (fst (handlePinSetup hashFn r t p (u, db)))
            = Some \<lparr>hash = h, attempts = 0, lockoutUntil = None, isFirstTime = False\<rparr>)"
proof (cases "hashFn p")
  case (Inl e)
  then show ?thesis by (simp add: handlePinSetup_def)
next
  case (Inr h)
  then show ?thesis
    by (simp add: handlePinSetup_def Let_def split: prod.splits)
      (metis getPinConfig_createSession getPinConfig_store snd_conv)
qed

lemma initializeVault_db: "snd (initializeVault t (u, db)) = db"
  by (simp add: initializeVault_def Let_def)

lemma initializeVault_pinConfig: "pinConfig (fst (initializeVault t (u, db))) = getPinConfig db"
  by (simp add: initializeVault_def Let_def split: option.splits)

lemma getPinConfig_endSession: "endSession db k = Inr db' \<Longrightarrow> getPinConfig db' = getPinConfig db"
  by (auto simp add: endSession_def getPinConfig_def Let_def split: option.splits)

lemma handleClose_config: "getPinConfig (snd (handleClose (u, db))) = getPinConfig db"
  by (auto simp add: handleClose_def Let_def split: option.splits sum.splits
        dest: getPinConfig_endSession)

lemma handleClose_fst: "fst (handleClose (u, db)) = None \<or> handleClose (u, db) = (Some u, db)"
  by (auto simp add: handleClose_def Let_def split: option.splits sum.splits)

text \<open>The file manager's handlers leave the PIN configuration alone.\<close>

lemma getPinConfig_handleFileUpload [simp]:
  "getPinConfig (handleFileUpload P r s i t pin file db) = getPinConfig db"
  by (simp add: handleFileUpload_def getPinConfig_def setMetadata_def storeFile_def Let_def)

lemma getPinConfig_handleDelete [simp]:
  "getPinConfig (handleDelete c file db) = getPinConfig db"
  by (simp add: handleDelete_def getPinConfig_def setMetadata_def deleteFile_def)

lemma tick_pinConfig [simp]: "pinConfig (tick u) = pinConfig u"
  by (simp add: tick_def)

lemma tick_keeps: "isLockedOut u \<and> 1 < lockoutTime u \<Longrightarrow> isLockedOut (tick u)"
  by (simp add: tick_def)

text \<open>Whatever the platform, the repository's \<open>verifyPin\<close> returns false.\<close>

lemma verifyPin_False: "verifyPin P p h = False"
  by (simp add: verifyPin_def generateKeyFromPin_def deriveKey_def exportKey_def
        Let_def split: sum.splits)

lemma showInt_4: "showInt 4 = ''4''"
  by (simp add: showInt_def digits_def)

subsection \<open>The component's copy of the configuration\<close>

lemma step_synced: "synced w \<Longrightarrow> synced (step P verify hashFn env e w)"
proof -
  assume s: "synced w"
  obtain uo db where w: "w = (uo, db)" by (cases w)
  show ?thesis
  proof (cases uo)
    case None
    then show ?thesis using w
      by (cases e) (simp_all add: synced_def split: prod.splits,
          metis fst_conv snd_conv initializeVault_db initializeVault_pinConfig)
  next
    case (Some u)
    with s w have pc: "pinConfig u = getPinConfig db" by (simp add: synced_def)
    show ?thesis
    proof (cases e)
      case Activate
      then show ?thesis using w Some pc by (simp add: synced_def)
    next
      case (SetupPin p)
      from handlePinSetup_cases[of hashFn p "random env" "now env" u db]
      show ?thesis using w Some pc SetupPin
        by (auto simp add: synced_def split: prod.splits)
    next
      case (TypePin x)
      then show ?thesis using w Some pc by (simp add: synced_def)
    next
      case SubmitPin
      show ?thesis
      proof (cases "pinFormShown u")
        case False
        then show ?thesis using w Some pc SubmitPin by (simp add: synced_def)
      next
        case True
        then obtain cfg where cfg: "pinConfig u = Some cfg" by (auto simp: pinFormShown_def)
        show ?thesis
        proof (cases "currentPin u = []")
          case empty: True
          then show ?thesis using w Some pc SubmitPin True
            by (simp add: synced_def handlePinSubmit_noop)
        next
          case typed: False
          show ?thesis
          proof (cases "verify (currentPin u) (hash cfg)")
            case v: True
            from handlePinSubmit_verified[of u cfg verify "random env" "now env" db] cfg typed v
            show ?thesis using w Some SubmitPin True
              by (auto simp add: synced_def split: prod.splits)
          next
            case v: False
            show ?thesis using w Some SubmitPin True
              by (simp add: synced_def handlePinSubmit_failed[of u cfg verify, OF cfg typed v])
          qed
        qed
      qed
    next
      case Tick
      then show ?thesis using w Some pc by (simp add: synced_def)
    next
      case CloseVault
      from handleClose_fst[of u db] handleClose_config[of u db]
      show ?thesis using w Some pc CloseVault
        by (cases "handleClose (u, db)") (auto simp add: synced_def)
    next
      case (Upload f)
      then show ?thesis using w Some pc by (simp add: synced_def Let_def)
    next
      case (Delete confirmed f)
      then show ?thesis using w Some pc by (simp add: synced_def Let_def)
    qed
  qed
qed



subsection \<open>Failed submissions\<close>

text \<open>
  Claim C2. A failed submission while the PIN form is shown stores the configuration
  with the counter raised by one. If the new count is 5 or more, the stored
  \<open>lockoutUntil\<close> is the time of the submission plus 15 minutes, \<open>isLockedOut\<close> is
  raised with a countdown of 900 seconds and the form is gone; otherwise no lockout is
  stored, the form stays, and the message reports 5 minus the new count as the
  attempts remaining. No session is created and the vault stays closed.
\<close>

theorem failed_submission_counts_and_locks:
  assumes "pinFormShown u" and "pinConfig u = Some cfg" and "currentPin u \<noteq> []"
    and "\<not> verify (currentPin u) (hash cfg)"
  shows "\<exists>u' db'. step P verify hashFn env SubmitPin (Some u, db) = (Some u', db')
     \<and> handlePinSubmit verify (random env) (now env) (u, db) = (u', db')
     \<and> getPinConfig db' = Some (cfg\<lparr>attempts := attempts cfg + 1,
            lockoutUntil := (if 5 \<le> attempts cfg + 1 then Some (now env + 15 * 60 * 1000) else None)\<rparr>)
     \<and> pinConfig u' = getPinConfig db'
     \<and> attemptsShown u' = attempts cfg + 1
     \<and> \<not> isUnlocked u' \<and> sessionsStore db' = sessionsStore db
     \<and> (5 \<le> attempts cfg + 1 \<longrightarrow> isLockedOut u' \<and> lockoutTime u' = 15 * 60 \<and> \<not> pinFormShown u')
     \<and> (attempts cfg + 1 < 5 \<longrightarrow> pinFormShown u'
           \<and> error u' = ''Invalid PIN. '' @ showInt (5 - (attempts cfg + 1)) @ '' attempts remaining.'')"
  using assms(1)
  by (simp add: handlePinSubmit_failed[of u cfg verify, OF assms(2,3,4)] pinFormShown_def
        sessionsStore_storePinConfig)

text \<open>The first wrong PIN on a vault without failed attempts, and the fifth at time
  1000.\<close>

theorem failed_submission_counts_and_locks_witness:
  "(\<exists>u' db'. step demoPlatform (verifyPin demoPlatform) (hashPin demoPlatform []) (envAt 1000)
        SubmitPin (Some freshState, storePinConfig emptyDB freshConfig) = (Some u', db')
     \<and> getPinConfig db' = Some (freshConfig\<lparr>attempts := 1\<rparr>)
     \<and> pinFormShown u'
     \<and> error u' = ''Invalid PIN. 4 attempts remaining.'')
   \<and> (\<exists>u' db'. step demoPlatform (verifyPin demoPlatform) (hashPin demoPlatform []) (envAt 1000)
        SubmitPin (Some (freshState\<lparr>pinConfig := Some (freshConfig\<lparr>attempts := 4\<rparr>)\<rparr>),
                   storePinConfig emptyDB (freshConfig\<lparr>attempts := 4\<rparr>)) = (Some u', db')
     \<and> getPinConfig db' = Some (freshConfig\<lparr>attempts := 5, lockoutUntil := Some 901000\<rparr>)
     \<and> isLockedOut u' \<and> lockoutTime u' = 900 \<and> \<not> pinFormShown u')"
proof -
  have a: "pinFormShown freshState"
    by (simp add: pinFormShown_def freshState_def initialState_def)
  have b: "pinConfig freshState = Some freshConfig"
    by (simp add: freshState_def)
  have c: "currentPin freshState \<noteq> []"
    by (simp add: freshState_def)
  have d: "\<not> verifyPin demoPlatform (currentPin freshState) (hash freshConfig)"
    by (simp add: verifyPin_False)
  have e: "attempts freshConfig + 1 < 5" "\<not> 5 \<le> attempts freshConfig + 1" "attempts freshConfig = 0"
    by (simp_all add: freshConfig_def)
  have f: "freshConfig\<lparr>attempts := 1, lockoutUntil := None\<rparr> = freshConfig\<lparr>attempts := 1\<rparr>"
    by (simp add: freshConfig_def)
  from failed_submission_counts_and_locks[where u = freshState and cfg = freshConfig
      and verify = "verifyPin demoPlatform" and P = demoPlatform
      and hashFn = "hashPin demoPlatform []" and env = "envAt 1000"
      and db = "storePinConfig emptyDB freshConfig"]
    a b c d
  have "\<exists>u' db'. step demoPlatform (verifyPin demoPlatform) (hashPin demoPlatform []) (envAt 1000)
          SubmitPin (Some freshState, storePinConfig emptyDB freshConfig) = (Some u', db')
     \<and> getPinConfig db' = Some (freshConfig\<lparr>attempts := 1\<rparr>)
     \<and> pinFormShown u'
     \<and> error u' = ''Invalid PIN. '' @ showInt 4 @ '' attempts remaining.''"
    using e f by (simp del: step.simps) blast
  then have first: "\<exists>u' db'. step demoPlatform (verifyPin demoPlatform) (hashPin demoPlatform []) (envAt 1000)
          SubmitPin (Some freshState, storePinConfig emptyDB freshConfig) = (Some u', db')
     \<and> getPinConfig db' = Some (freshConfig\<lparr>attempts := 1\<rparr>)
     \<and> pinFormShown u'
     \<and> error u' = ''Invalid PIN. 4 attempts remaining.''"
    by (simp add: showInt_4 del: step.simps)
  let ?c4 = "freshConfig\<lparr>attempts := 4\<rparr>"
  let ?u4 = "freshState\<lparr>pinConfig := Some ?c4\<rparr>"
  have a4: "pinFormShown ?u4" "pinConfig ?u4 = Some ?c4" "currentPin ?u4 \<noteq> []"
    "\<not> verifyPin demoPlatform (currentPin ?u4) (hash ?c4)"
    by (simp_all add: pinFormShown_def freshState_def initialState_def verifyPin_False)
  have e4: "5 \<le> attempts ?c4 + 1" "attempts ?c4 + 1 = 5" by simp_all
  from failed_submission_counts_and_locks[where u = ?u4 and cfg = ?c4
      and verify = "verifyPin demoPlatform" and P = demoPlatform
      and hashFn = "hashPin demoPlatform []" and env = "envAt 1000"
      and db = "storePinConfig emptyDB ?c4"]
    a4
  have second: "\<exists>u' db'. step demoPlatform (verifyPin demoPlatform) (hashPin demoPlatform []) (envAt 1000)
        SubmitPin (Some ?u4, storePinConfig emptyDB ?c4) = (Some u', db')
     \<and> getPinConfig db' = Some (freshConfig\<lparr>attempts := 5, lockoutUntil := Some 901000\<rparr>)
     \<and> isLockedOut u' \<and> lockoutTime u' = 900 \<and> \<not> pinFormShown u'"
    using e4 by (simp del: step.simps) blast
  from first second show ?thesis by blast
qed

subsection \<open>The countdown and the stored lockout\<close>

lemma ceil_seconds: "until \<le> t + - ((t - until) div 1000) * 1000" for t :: int
proof -
  have a: "(t - until) div 1000 * 1000 + (t - until) mod 1000 = t - until" by simp
  have b: "0 \<le> (t - until) mod 1000" by simp
  from a b show ?thesis by linarith
qed

lemma lockoutKept_same:
  assumes "lockoutKept (tm, w)" and "lastEvent tm \<le> now env" and "synced w'"
    and "countdown w' = countdown w" and "storedLockoutUntil (snd w') = storedLockoutUntil (snd w)"
  shows "lockoutKept (advance tm env w w', w')"
proof (cases "fst w'")
  case None
  then show ?thesis using assms(3) by (simp add: lockoutKept_def)
next
  case (Some u')
  with assms(4) obtain u where u: "fst w = Some u" "isLockedOut u' = isLockedOut u"
      "lockoutTime u' = lockoutTime u"
    by (cases "fst w") (auto simp add: countdown_def)
  show ?thesis
  proof (cases "storedLockoutUntil (snd w)")
    case None
    then show ?thesis using assms(3,5) Some by (simp add: lockoutKept_def)
  next
    case (Some until)
    with assms(1) u have "if isLockedOut u then until \<le> timerStart tm + lockoutTime u * 1000
        else until \<le> lastEvent tm"
      by (simp add: lockoutKept_def)
    then show ?thesis using assms(2,3,4,5) Some u \<open>fst w' = Some u'\<close>
      by (auto simp add: lockoutKept_def advance_def)
  qed
qed

lemma lockoutKept_clear:
  assumes "synced w'" and "fst w' = None \<or> storedLockoutUntil (snd w') = None"
  shows "lockoutKept (tm', w')"
  using assms by (auto simp add: lockoutKept_def split: option.splits)

lemma countdown_Some: "countdown (Some u, db) = Some (isLockedOut u, lockoutTime u)"
  by (simp add: countdown_def)

lemma step_Activate_snd: "snd (step P verify hashFn env Activate w) = snd w"
  by (cases w, cases "fst w") (simp_all add: initializeVault_db split: prod.splits,
      metis initializeVault_db snd_conv)

lemma step_lockoutKept:
  assumes "lockoutKept (tm, w)" and "admissible tm env e"
  shows "lockoutKept (advance tm env w (step P verify hashFn env e w), step P verify hashFn env e w)"
proof -
  from assms(1) have s: "synced w" by (simp add: lockoutKept_def)
  then have s': "synced (step P verify hashFn env e w)" by (rule step_synced)
  from assms(2) have mono: "lastEvent tm \<le> now env" by (cases e) simp_all
  note same = lockoutKept_same[OF assms(1) mono s']
  obtain uo db where w: "w = (uo, db)" by (cases w)
  show ?thesis
  proof (cases uo)
    case None
    show ?thesis
    proof (cases e)
      case Activate
      show ?thesis
      proof (cases "storedLockoutUntil db")
        case n: None
        have "snd (step P verify hashFn env e w) = db"
          using w None Activate step_Activate_snd[of P verify hashFn env w] by simp
        with n show ?thesis by (intro lockoutKept_clear s') simp
      next
        case (Some until)
        then obtain cfg where cfg: "getPinConfig db = Some cfg" "lockoutUntil cfg = Some until"
          by (auto simp add: storedLockoutUntil_def split: option.splits)
        show ?thesis
        proof (cases "now env < until")
          case True
          with cfg have "step P verify hashFn env e w =
             (Some (initialState\<lparr>pinConfig := Some cfg, isLockedOut := True,
                     lockoutTime := - ((now env - until) div 1000),
                     attemptsShown := (if attempts cfg = 0 then 0 else attempts cfg),
                     isLoading := False\<rparr>), db)"
            using w None Activate by (simp add: initializeVault_def Let_def)
          then show ?thesis using s' Some w None ceil_seconds[of until "now env"]
            by (simp add: lockoutKept_def advance_def countdown_def)
        next
          case False
          with cfg have "step P verify hashFn env e w =
             (Some (initialState\<lparr>pinConfig := Some cfg,
                     attemptsShown := (if attempts cfg = 0 then 0 else attempts cfg),
                     isLoading := False\<rparr>), db)"
            using w None Activate by (simp add: initializeVault_def Let_def)
          then show ?thesis using s' Some w None False
            by (simp add: lockoutKept_def advance_def countdown_def initialState_def)
        qed
      qed
    next
      case (SetupPin p)
      then show ?thesis using w None by (intro lockoutKept_clear s') simp
    next
      case (TypePin x)
      then show ?thesis using w None by (intro lockoutKept_clear s') simp
    next
      case SubmitPin
      then show ?thesis using w None by (intro lockoutKept_clear s') simp
    next
      case Tick
      then show ?thesis using w None by (intro lockoutKept_clear s') simp
    next
      case CloseVault
      then show ?thesis using w None by (intro lockoutKept_clear s') simp
    next
      case (Upload f)
      then show ?thesis using w None by (intro lockoutKept_clear s') simp
    next
      case (Delete confirmed f)
      then show ?thesis using w None by (intro lockoutKept_clear s') simp
    qed
  next
    case (Some u)
    with s w have pc: "pinConfig u = getPinConfig db" by (simp add: synced_def)
    show ?thesis
    proof (cases e)
      case Activate
      then show ?thesis using w Some by (intro same) simp_all
    next
      case (SetupPin p)
      show ?thesis
      proof (cases "pinSetupShown u \<and> isValid (validatePin p)")
        case False
        then show ?thesis using w Some SetupPin by (intro same) auto
      next
        case True
        from handlePinSetup_cases[of hashFn p "random env" "now env" u db]
        show ?thesis
        proof (elim disjE exE conjE)
          fix ex
          assume "handlePinSetup hashFn (random env) (now env) p (u, db)
                    = (u\<lparr>error := ''Failed to setup PIN''\<rparr>, db)"
          then show ?thesis using w Some SetupPin True
            by (intro same) (simp_all add: countdown_def)
        next
          fix h
          assume "getPinConfig (snd (handlePinSetup hashFn (random env) (now env) p (u, db)))
            = Some \<lparr>hash = h, attempts = 0, lockoutUntil = None, isFirstTime = False\<rparr>"
          then have "storedLockoutUntil (snd (step P verify hashFn env e w)) = None"
            using w Some SetupPin True by (auto simp add: storedLockoutUntil_def split: prod.splits)
          then show ?thesis by (intro lockoutKept_clear s') simp
        qed
      qed
    next
      case (TypePin x)
      then show ?thesis using w Some by (intro same) (simp_all add: countdown_def)
    next
      case SubmitPin
      show ?thesis
      proof (cases "pinFormShown u")
        case False
        then show ?thesis using w Some SubmitPin by (intro same) simp_all
      next
        case True
        then obtain cfg where cfg: "pinConfig u = Some cfg" and nl: "\<not> isLockedOut u"
          by (auto simp: pinFormShown_def)
        show ?thesis
        proof (cases "currentPin u = []")
          case empty: True
          then show ?thesis using w Some SubmitPin True
            by (intro same) (simp_all add: handlePinSubmit_noop)
        next
          case typed: False
          show ?thesis
          proof (cases "verify (currentPin u) (hash cfg)")
            case v: True
            from handlePinSubmit_verified[of u cfg verify "random env" "now env" db] cfg typed v
            have "storedLockoutUntil (snd (step P verify hashFn env e w)) = None"
              using w Some SubmitPin True by (auto simp add: storedLockoutUntil_def split: prod.splits)
            then show ?thesis by (intro lockoutKept_clear s') simp
          next
            case v: False
            note eq = handlePinSubmit_failed[of u cfg verify "random env" "now env" db, OF cfg typed v]
            show ?thesis
            proof (cases "5 \<le> attempts cfg + 1")
              case lock: True
              then show ?thesis using w Some SubmitPin True s' nl
                by (simp add: eq lockoutKept_def advance_def countdown_def storedLockoutUntil_def)
            next
              case nolock: False
              then have "storedLockoutUntil (snd (step P verify hashFn env e w)) = None"
                using w Some SubmitPin True by (simp add: eq storedLockoutUntil_def)
              then show ?thesis by (intro lockoutKept_clear s') simp
            qed
          qed
        qed
      qed
    next
      case Tick
      from assms(1) w Some have inv:
        "\<And>until. storedLockoutUntil db = Some until \<Longrightarrow>
           (if isLockedOut u then until \<le> timerStart tm + lockoutTime u * 1000
            else until \<le> lastEvent tm)"
        by (auto simp add: lockoutKept_def split: option.splits)
      from assms(2) Tick have late: "timerStart tm + 1000 \<le> now env" by simp
      show ?thesis
      proof (cases "storedLockoutUntil db")
        case None
        then show ?thesis using w Some Tick by (intro lockoutKept_clear s') simp
      next
        case until: (Some until)
        show ?thesis
        proof (cases "isLockedOut u \<and> lockoutTime u > 0")
          case False
          then have "tick u = u" by (auto simp add: tick_def)
          then show ?thesis using w Some Tick by (intro same) simp_all
        next
          case True
          with inv[OF until] have b: "until \<le> timerStart tm + lockoutTime u * 1000" by simp
          show ?thesis
          proof (cases "lockoutTime u \<le> 1")
            case last: True
            with True have "tick u = u\<lparr>isLockedOut := False, lockoutTime := 0\<rparr>"
              by (simp add: tick_def)
            moreover from b last late have "until \<le> now env" by linarith
            ultimately show ?thesis using w Some Tick s' until
              by (simp add: lockoutKept_def advance_def)
          next
            case more: False
            with True have t: "tick u = u\<lparr>lockoutTime := lockoutTime u - 1\<rparr>"
              by (simp add: tick_def)
            from b late have "until \<le> now env + (lockoutTime u - 1) * 1000"
              by (simp add: algebra_simps)
            then show ?thesis using w Some Tick s' until True t
              by (simp add: lockoutKept_def advance_def countdown_def)
          qed
        qed
      qed
    next
      case CloseVault
      show ?thesis
      proof (cases "closeShown u")
        case False
        then show ?thesis using w Some CloseVault by (intro same) simp_all
      next
        case True
        from handleClose_fst[of u db] show ?thesis
        proof
          assume "fst (handleClose (u, db)) = None"
          then show ?thesis using w Some CloseVault True by (intro lockoutKept_clear s') simp
        next
          assume "handleClose (u, db) = (Some u, db)"
          then show ?thesis using w Some CloseVault True by (intro same) simp_all
        qed
      qed
    next
      case (Upload f)
      then show ?thesis using w Some
        by (intro same) (simp_all add: countdown_def storedLockoutUntil_def Let_def)
    next
      case (Delete confirmed f)
      then show ?thesis using w Some
        by (intro same) (simp_all add: countdown_def storedLockoutUntil_def Let_def)
    qed
  qed
qed

lemma timedRun_lockoutKept:
  "lockoutKept s \<Longrightarrow> timedRun P verify hashFn es s = Some s' \<Longrightarrow> lockoutKept s'"
proof (induction es arbitrary: s)
  case Nil
  then show ?case by simp
next
  case (Cons x es)
  obtain env e where x: "x = (env, e)" by (cases x)
  obtain tm w where st: "s = (tm, w)" by (cases s)
  from Cons.prems(2) x st have adm: "admissible tm env e"
    by (simp split: if_splits)
  with Cons.prems(2) x st
  have r: "timedRun P verify hashFn es
            (advance tm env w (step P verify hashFn env e w), step P verify hashFn env e w) = Some s'"
    by (simp add: Let_def)
  from Cons.prems(1) st adm
  have "lockoutKept (advance tm env w (step P verify hashFn env e w), step P verify hashFn env e w)"
    by (simp add: step_lockoutKept)
  from Cons.IH[OF this r] show ?case .
qed

lemma timed_submit_blocked:
  assumes "timedRun P verify hashFn es (tm0, (None, db0)) = Some (tm, w)"
    and "lastEvent tm \<le> now env" and "storedLockoutUntil (snd w) = Some until"
    and "now env < until"
  shows "step P verify hashFn env SubmitPin w = w"
proof -
  have "lockoutKept (tm0, (None, db0))" by (simp add: lockoutKept_def synced_def)
  from timedRun_lockoutKept[OF this assms(1)] have k: "lockoutKept (tm, w)" .
  obtain uo db where w: "w = (uo, db)" by (cases w)
  show ?thesis
  proof (cases uo)
    case None
    then show ?thesis using w by simp
  next
    case (Some u)
    with k w assms(2,3,4) have "isLockedOut u"
      by (auto simp add: lockoutKept_def split: if_splits)
    then show ?thesis using w Some by (simp add: pinFormShown_def)
  qed
qed

subsection \<open>Lockout\<close>

text \<open>
  Claim C1, as stated: while the time is before the stored \<open>lockoutUntil\<close>, every
  submission is rejected, no PIN is verified and nothing persisted changes.
  \<open>handlePinSubmit\<close> looks neither at the clock nor at \<open>lockoutUntil\<close>; what keeps
  a submission away is the flag \<open>isLockedOut\<close> of the page, which is set from the
  clock when the vault is opened. The vault is closed, with five failed attempts and a
  lockout stored until 900000. It is opened when the clock reads 900001: the flag is
  not set and the page shows the PIN form. A PIN is typed. The clock is then set back,
  and the PIN is submitted when it reads 1000, before the stored \<open>lockoutUntil\<close>. The
  PIN is verified: with the repository's \<open>verifyPin\<close> the stored counter becomes 6
  and the stored lockout moves to 901000; with a verifier that accepts the typed PIN
  the vault is unlocked and counter and lockout are cleared. Every event here is one the
  page accepts, and they are handled one after the other; the sequence is not a
  \<open>timedRun\<close>, because the clock goes back in it.
\<close>

theorem lockout_clock_set_back_counterexample:
  "storedAttempts lockedDB = 5
   \<and> storedLockoutUntil lockedDB = Some 900000
   \<and> now (envAt 1000) < 900000
   \<and> storedAttempts (snd (run demoPlatform (verifyPin demoPlatform) (hashPin demoPlatform [])
         [(envAt 900001, Activate), (envAt 900002, TypePin ''0000''), (envAt 1000, SubmitPin)]
         (None, lockedDB))) = 6
   \<and> storedLockoutUntil (snd (run demoPlatform (verifyPin demoPlatform) (hashPin demoPlatform [])
         [(envAt 900001, Activate), (envAt 900002, TypePin ''0000''), (envAt 1000, SubmitPin)]
         (None, lockedDB))) = Some 901000
   \<and> map_option isUnlocked (fst (run demoPlatform sameAsStored (hashPin demoPlatform [])
         [(envAt 900001, Activate), (envAt 900002, TypePin ''stored''), (envAt 1000, SubmitPin)]
         (None, lockedDB))) = Some True
   \<and> storedAttempts (snd (run demoPlatform sameAsStored (hashPin demoPlatform [])
         [(envAt 900001, Activate), (envAt 900002, TypePin ''stored''), (envAt 1000, SubmitPin)]
         (None, lockedDB))) = 0
   \<and> storedLockoutUntil (snd (run demoPlatform sameAsStored (hashPin demoPlatform [])
         [(envAt 900001, Activate), (envAt 900002, TypePin ''stored''), (envAt 1000, SubmitPin)]
         (None, lockedDB))) = None
   \<and> timedRun demoPlatform (verifyPin demoPlatform) (hashPin demoPlatform [])
         [(envAt 900001, Activate), (envAt 900002, TypePin ''0000''), (envAt 1000, SubmitPin)]
         (\<lparr>lastEvent = 0, timerStart = 0\<rparr>, (None, lockedDB)) = None"
proof -
  have opened: "\<And>verify p. run demoPlatform verify (hashPin demoPlatform [])
         [(envAt 900001, Activate), (envAt 900002, TypePin p), (envAt 1000, SubmitPin)]
         (None, lockedDB)
       = step demoPlatform verify (hashPin demoPlatform []) (envAt 1000) SubmitPin
           (Some (initialState\<lparr>pinConfig := Some lockedConfig, attemptsShown := 5,
                    isLoading := False, currentPin := p\<rparr>), lockedDB)"
    by (simp add: initializeVault_def Let_def lockedDB_def lockedConfig_def initialState_def
          pinFormShown_def del: step.simps(6))
  have stored: "storedAttempts lockedDB = 5" "storedLockoutUntil lockedDB = Some 900000"
    by (simp_all add: storedAttempts_def storedLockoutUntil_def lockedDB_def lockedConfig_def)
  have wrong: "snd (step demoPlatform (verifyPin demoPlatform) (hashPin demoPlatform []) (envAt 1000)
        SubmitPin (Some (initialState\<lparr>pinConfig := Some lockedConfig, attemptsShown := 5,
                    isLoading := False, currentPin := ''0000''\<rparr>), lockedDB))
      = storePinConfig lockedDB (lockedConfig\<lparr>attempts := 6, lockoutUntil := Some 901000\<rparr>)"
    by (simp add: pinFormShown_def initialState_def handlePinSubmit_def verifyPin_False Let_def
          lockedConfig_def)
  have u: "pinFormShown (initialState\<lparr>pinConfig := Some lockedConfig, attemptsShown := 5,
                    isLoading := False, currentPin := ''stored''\<rparr>)"
    by (simp add: pinFormShown_def initialState_def)
  have right: "getPinConfig (snd (step demoPlatform sameAsStored (hashPin demoPlatform []) (envAt 1000)
        SubmitPin (Some (initialState\<lparr>pinConfig := Some lockedConfig, attemptsShown := 5,
                    isLoading := False, currentPin := ''stored''\<rparr>), lockedDB)))
      = Some (lockedConfig\<lparr>attempts := 0, lockoutUntil := None\<rparr>)"
    using u handlePinSubmit_verified[of "initialState\<lparr>pinConfig := Some lockedConfig,
        attemptsShown := 5, isLoading := False, currentPin := ''stored''\<rparr>" lockedConfig
        sameAsStored "[]" 1000 lockedDB]
    by (auto simp add: sameAsStored_def lockedConfig_def split: prod.splits)
  have unlocked: "map_option isUnlocked (fst (step demoPlatform sameAsStored (hashPin demoPlatform [])
        (envAt 1000) SubmitPin (Some (initialState\<lparr>pinConfig := Some lockedConfig,
           attemptsShown := 5, isLoading := False, currentPin := ''stored''\<rparr>), lockedDB)))
      = Some True"
    using u
    by (auto simp add: handlePinSubmit_def sameAsStored_def lockedConfig_def Let_def
          split: prod.splits)
  have timed: "timedRun demoPlatform (verifyPin demoPlatform) (hashPin demoPlatform [])
         [(envAt 900001, Activate), (envAt 900002, TypePin ''0000''), (envAt 1000, SubmitPin)]
         (\<lparr>lastEvent = 0, timerStart = 0\<rparr>, (None, lockedDB)) = None"
    by (simp add: advance_def Let_def del: step.simps)
  have t: "now (envAt 1000) < 900000" by simp
  have w6: "storedAttempts (storePinConfig lockedDB
        (lockedConfig\<lparr>attempts := 6, lockoutUntil := Some 901000\<rparr>)) = 6"
    and wl: "storedLockoutUntil (storePinConfig lockedDB
        (lockedConfig\<lparr>attempts := 6, lockoutUntil := Some 901000\<rparr>)) = Some 901000"
    by (simp_all add: storedAttempts_def storedLockoutUntil_def)
  have r0: "storedAttempts (snd (step demoPlatform sameAsStored (hashPin demoPlatform []) (envAt 1000)
        SubmitPin (Some (initialState\<lparr>pinConfig := Some lockedConfig, attemptsShown := 5,
                    isLoading := False, currentPin := ''stored''\<rparr>), lockedDB))) = 0"
    and rl: "storedLockoutUntil (snd (step demoPlatform sameAsStored (hashPin demoPlatform [])
        (envAt 1000) SubmitPin (Some (initialState\<lparr>pinConfig := Some lockedConfig,
           attemptsShown := 5, isLoading := False, currentPin := ''stored''\<rparr>), lockedDB))) = None"
    unfolding storedAttempts_def storedLockoutUntil_def right by simp_all
  show ?thesis
    unfolding opened wrong
    by (intro conjI stored t w6 wl unlocked r0 rl timed)
qed

text \<open>
  Claim C1, amended. The events of the page are handled one at a time, each to its end
  before the next, by one component that is started from a closed vault; the clock is
  not set back, so that no event happens at an earlier time than the one before it;
  and the countdown interval fires no earlier than 1000 ms of that clock after it was
  last started (a \<open>timedRun\<close>). Then a submission at a time before the stored
  \<open>lockoutUntil\<close> does nothing: no PIN is verified and neither the component nor
  anything persisted changes. The gate is the flag \<open>isLockedOut\<close>: while it is set
  the page shows neither the PIN input nor the button, so a submission and a change of
  the input leave everything as it is, whatever the verifier would say. The flag is set
  when the vault is opened before the stored \<open>lockoutUntil\<close>, with the countdown at
  the seconds that remain, and when a failed submission brings the count to 5 or more;
  the countdown keeps it while more than one second remains.
\<close>

theorem lockout_flag_blocks_submission:
  "(\<forall>tm0 db0 es tm w until.
       timedRun P verify hashFn es (tm0, (None, db0)) = Some (tm, w)
       \<and> lastEvent tm \<le> now env \<and> storedLockoutUntil (snd w) = Some until \<and> now env < until
       \<longrightarrow> step P verify hashFn env SubmitPin w = w)
   \<and> (isLockedOut u \<longrightarrow>
      step P verify hashFn env SubmitPin (Some u, db) = (Some u, db)
      \<and> step P verify hashFn env (TypePin s) (Some u, db) = (Some u, db))
   \<and> (\<forall>cfg until. getPinConfig db = Some cfg \<and> lockoutUntil cfg = Some until \<and> now env < until \<longrightarrow>
        (\<exists>u'. step P verify hashFn env Activate (None, db) = (Some u', db)
           \<and> isLockedOut u' \<and> lockoutTime u' = - ((now env - until) div 1000)))
   \<and> (\<forall>cfg. pinFormShown u \<and> pinConfig u = Some cfg \<and> currentPin u \<noteq> []
          \<and> \<not> verify (currentPin u) (hash cfg) \<and> 5 \<le> attempts cfg + 1 \<longrightarrow>
        (\<exists>u' db'. step P verify hashFn env SubmitPin (Some u, db) = (Some u', db') \<and> isLockedOut u'))
   \<and> (isLockedOut u \<and> 1 < lockoutTime u \<longrightarrow> isLockedOut (tick u))"
proof (intro conjI allI impI)
  fix tm0 db0 es tm w until
  assume "timedRun P verify hashFn es (tm0, (None, db0)) = Some (tm, w)
       \<and> lastEvent tm \<le> now env \<and> storedLockoutUntil (snd w) = Some until \<and> now env < until"
  then show "step P verify hashFn env SubmitPin w = w"
    using timed_submit_blocked[of P verify hashFn es tm0 db0 tm w env until] by blast
next
  assume "isLockedOut u"
  then show "step P verify hashFn env SubmitPin (Some u, db) = (Some u, db)"
    and "step P verify hashFn env (TypePin s) (Some u, db) = (Some u, db)"
    by (simp_all add: pinFormShown_def)
next
  fix cfg until
  assume "getPinConfig db = Some cfg \<and> lockoutUntil cfg = Some until \<and> now env < until"
  then show "\<exists>u'. step P verify hashFn env Activate (None, db) = (Some u', db)
           \<and> isLockedOut u' \<and> lockoutTime u' = - ((now env - until) div 1000)"
    by (simp add: initializeVault_def Let_def)
next
  fix cfg
  assume a: "pinFormShown u \<and> pinConfig u = Some cfg \<and> currentPin u \<noteq> []
          \<and> \<not> verify (currentPin u) (hash cfg) \<and> 5 \<le> attempts cfg + 1"
  then have "handlePinSubmit verify (random env) (now env) (u, db) =
     ((if 5 \<le> attempts cfg + 1 then u\<lparr>error := [], isLockedOut := True, lockoutTime := 900\<rparr>
       else u\<lparr>error := []\<rparr>)
        \<lparr>pinConfig := Some (cfg\<lparr>attempts := attempts cfg + 1,
                  lockoutUntil := (if 5 \<le> attempts cfg + 1 then Some (now env + 900000) else None)\<rparr>),
         attemptsShown := attempts cfg + 1,
         error := ''Invalid PIN. '' @ showInt (5 - (attempts cfg + 1)) @ '' attempts remaining.'',
         currentPin := []\<rparr>,
      storePinConfig db (cfg\<lparr>attempts := attempts cfg + 1,
                  lockoutUntil := (if 5 \<le> attempts cfg + 1 then Some (now env + 900000) else None)\<rparr>))"
    using handlePinSubmit_failed[of u cfg verify] by blast
  with a show "\<exists>u' db'. step P verify hashFn env SubmitPin (Some u, db) = (Some u', db') \<and> isLockedOut u'"
    by simp
next
  assume "isLockedOut u \<and> 1 < lockoutTime u"
  then show "isLockedOut (tick u)" by (rule tick_keeps)
qed

text \<open>The vault in lockout is opened at time 1000, the countdown fires at 2000, a
  submission is tried at 2500 and at 3000.\<close>

lemma timed_example:
  "timedRun demoPlatform (verifyPin demoPlatform) (hashPin demoPlatform [])
      [(envAt 1000, Activate), (envAt 2000, Tick), (envAt 2500, SubmitPin)]
      (\<lparr>lastEvent = 0, timerStart = 0\<rparr>, (None, lockedDB))
   = Some (\<lparr>lastEvent = 2500, timerStart = 2000\<rparr>,
           (Some (initialState\<lparr>pinConfig := Some lockedConfig, isLockedOut := True,
                    lockoutTime := 898, attemptsShown := 5, isLoading := False\<rparr>), lockedDB))"
  by (simp add: advance_def countdown_def initializeVault_def Let_def tick_def pinFormShown_def
        lockedDB_def lockedConfig_def initialState_def)

theorem lockout_flag_blocks_submission_witness:
  "step demoPlatform (verifyPin demoPlatform) (hashPin demoPlatform []) (envAt 3000) SubmitPin
       (Some (initialState\<lparr>pinConfig := Some lockedConfig, isLockedOut := True,
                lockoutTime := 898, attemptsShown := 5, isLoading := False\<rparr>), lockedDB)
     = (Some (initialState\<lparr>pinConfig := Some lockedConfig, isLockedOut := True,
                lockoutTime := 898, attemptsShown := 5, isLoading := False\<rparr>), lockedDB)
   \<and> step demoPlatform (verifyPin demoPlatform) (hashPin demoPlatform []) (envAt 1000) SubmitPin
       (Some lockedState, lockedDB) = (Some lockedState, lockedDB)
   \<and> (\<exists>u'. step demoPlatform (verifyPin demoPlatform) (hashPin demoPlatform []) (envAt 1000) Activate
       (None, lockedDB) = (Some u', lockedDB) \<and> isLockedOut u' \<and> lockoutTime u' = 899)
   \<and> isLockedOut (tick lockedState)"
proof -
  let ?w = "(Some (initialState\<lparr>pinConfig := Some lockedConfig, isLockedOut := True,
                lockoutTime := 898, attemptsShown := 5, isLoading := False\<rparr>), lockedDB)"
  have t: "lastEvent \<lparr>lastEvent = 2500, timerStart = 2000\<rparr> \<le> now (envAt 3000)
      \<and> storedLockoutUntil (snd ?w) = Some 900000 \<and> now (envAt 3000) < 900000"
    by (simp add: storedLockoutUntil_def lockedDB_def lockedConfig_def)
  have a: "isLockedOut lockedState" "1 < lockoutTime lockedState"
    by (simp_all add: lockedState_def)
  have b: "getPinConfig lockedDB = Some lockedConfig \<and> lockoutUntil lockedConfig = Some 900000
      \<and> now (envAt 1000) < 900000"
    by (simp add: lockedDB_def lockedConfig_def)
  have c: "- (((1000::int) - 900000) div 1000) = 899" by simp
  note thm3000 = lockout_flag_blocks_submission[where P = demoPlatform
      and verify = "verifyPin demoPlatform" and hashFn = "hashPin demoPlatform []"
      and env = "envAt 3000" and u = lockedState and db = lockedDB and s = "[]"]
  from thm3000 timed_example t
  have first: "step demoPlatform (verifyPin demoPlatform) (hashPin demoPlatform []) (envAt 3000)
      SubmitPin ?w = ?w"
    by blast
  from lockout_flag_blocks_submission[where u = lockedState and P = demoPlatform
      and verify = "verifyPin demoPlatform" and hashFn = "hashPin demoPlatform []"
      and env = "envAt 1000" and db = lockedDB and s = "[]"] a b c
  have rest: "step demoPlatform (verifyPin demoPlatform) (hashPin demoPlatform []) (envAt 1000) SubmitPin
       (Some lockedState, lockedDB) = (Some lockedState, lockedDB)
   \<and> (\<exists>u'. step demoPlatform (verifyPin demoPlatform) (hashPin demoPlatform []) (envAt 1000) Activate
       (None, lockedDB) = (Some u', lockedDB) \<and> isLockedOut u' \<and> lockoutTime u' = 899)
   \<and> isLockedOut (tick lockedState)"
    by (simp del: step.simps)
  from first rest show ?thesis by (simp del: step.simps)
qed

text \<open>
  The condition on the countdown is a property of the browser's interval, which does not
  fire before its delay has passed. It is needed: were the interval to fire twice within
  two milliseconds of a vault opened at 1000 with a lockout stored until 3000, the flag
  would be cleared and a submission at 1004 would be verified and counted.
\<close>

lemma early_tick_example:
  "storedAttempts (snd (run demoPlatform (verifyPin demoPlatform) (hashPin demoPlatform [])
      [(envAt 1000, Activate), (envAt 1001, Tick), (envAt 1002, Tick),
       (envAt 1003, TypePin ''0000''), (envAt 1004, SubmitPin)]
      (None, storePinConfig emptyDB (lockedConfig\<lparr>lockoutUntil := Some 3000\<rparr>)))) = 6
   \<and> timedRun demoPlatform (verifyPin demoPlatform) (hashPin demoPlatform [])
      [(envAt 1000, Activate), (envAt 1001, Tick), (envAt 1002, Tick),
       (envAt 1003, TypePin ''0000''), (envAt 1004, SubmitPin)]
      (\<lparr>lastEvent = 0, timerStart = 0\<rparr>,
       (None, storePinConfig emptyDB (lockedConfig\<lparr>lockoutUntil := Some 3000\<rparr>))) = None"
  by (simp add: initializeVault_def Let_def lockedConfig_def initialState_def tick_def
        pinFormShown_def handlePinSubmit_def verifyPin_False storedAttempts_def
        advance_def countdown_def)

subsection \<open>The attempt counter over time\<close>





end
